theory Spec2Isabelle
  imports Main "HOL-Library.Word"
begin

unbundle bit_operations_syntax

section \<open>The FastCGI client of gophpfpm (fcgi\_client.go)\<close>

text \<open>
  Go's \<open>byte\<close>, \<open>uint16\<close> and \<open>uint32\<close> are words of that width; conversions
  between them truncate or zero-extend as Go's do. Go's \<open>int\<close> holds slice lengths, which
  never overflow it, so lengths are \<open>nat\<close> and \<open>-contentLength & 7\<close> is computed
  on \<open>int\<close> (two's complement, as in Go). A Go \<open>string\<close> is a \<open>string\<close>; the
  bytes of a string are obtained with \<open>bytes\<close>.
\<close>

type_synonym byte = "8 word"
type_synonym uint16 = "16 word"
type_synonym uint32 = "32 word"

definition bytes :: "string \<Rightarrow> byte list" where
  "bytes s = map (\<lambda>c. of_nat (of_char c)) s"

definition str :: "byte list \<Rightarrow> string" where
  "str bs = map (\<lambda>b. char_of (unat b)) bs"

subsection \<open>Constants and the record header\<close>

definition FCGI_VERSION :: byte where "FCGI_VERSION = 1"
definition FCGI_FLAG_KEEP_ALIVE :: byte where "FCGI_FLAG_KEEP_ALIVE = 1"
definition FCGI_RESPONDER :: int where "FCGI_RESPONDER = 1"
definition FCGI_BEGIN_REQUEST :: byte where "FCGI_BEGIN_REQUEST = 1"
definition FCGI_END_REQUEST :: byte where "FCGI_END_REQUEST = 3"
definition FCGI_PARAMS :: byte where "FCGI_PARAMS = 4"
definition FCGI_STDIN :: byte where "FCGI_STDIN = 5"
definition FCGI_STDOUT :: byte where "FCGI_STDOUT = 6"
definition FCGI_STDERR :: byte where "FCGI_STDERR = 7"

record FCgiRecord =
  Version :: byte
  Type :: byte
  RequestId :: uint16
  ContentLength :: uint16
  PaddingLength :: byte
  Reserved :: byte

text \<open>\<open>binary.BigEndian\<close>: the most significant byte first.\<close>

definition put16 :: "uint16 \<Rightarrow> byte list" where
  "put16 w = [ucast (drop_bit 8 w), ucast w]"

definition get16 :: "byte \<Rightarrow> byte \<Rightarrow> uint16" where
  "get16 hi lo = push_bit 8 (ucast hi) OR ucast lo"

definition put32 :: "uint32 \<Rightarrow> byte list" where
  "put32 w = [ucast (drop_bit 24 w), ucast (drop_bit 16 w), ucast (drop_bit 8 w), ucast w]"

text \<open>\<open>binary.Write(buf, binary.BigEndian, header)\<close>: the six fields in order, 8 bytes.\<close>

definition encode_header :: "FCgiRecord \<Rightarrow> byte list" where
  "encode_header h =
     [Version h, Type h] @ put16 (RequestId h) @ put16 (ContentLength h)
       @ [PaddingLength h, Reserved h]"

subsection \<open>Errors\<close>

text \<open>
  The errors of the standard library are constructors; \<open>fmt.Errorf("msg: %w", err)\<close> is
  \<open>Errorf msg (Some err)\<close> (and \<open>Errorf msg None\<close> when the wrapped \<open>err\<close> is
  \<open>nil\<close>). A run-time panic is not an error value: it unwinds the callers, so a failure
  is either an error or a panic.
\<close>

datatype error =
    EOF
  | ErrUnexpectedEOF
  | WriteError
  | DialError
  | ParseError string
  | NumError string
  | Errorf string "error option"

datatype failure = Err error | Panic string

definition wrapf :: "string \<Rightarrow> failure \<Rightarrow> failure" where
  "wrapf msg f = (case f of Err e \<Rightarrow> Err (Errorf msg (Some e)) | Panic p \<Rightarrow> Panic p)"

subsection \<open>The connection\<close>

text \<open>
  A \<open>net.Conn\<close> as this client sees it: \<open>incoming\<close> are the bytes the peer delivers
  before the stream ends, \<open>written\<close> the bytes written so far. \<open>writes_ok = Some n\<close>
  says that \<open>n\<close> more calls of \<open>Write\<close> succeed and the next one fails (the peer went
  away); \<open>None\<close> that no write fails. A closed connection neither reads nor writes.
\<close>

record NetConn =
  incoming :: "byte list"
  written :: "byte list"
  writes_ok :: "nat option"
  closed :: bool

record FCgiConnection =
  Conn :: NetConn
  socketPath :: string
  id :: int

definition conn_Write :: "NetConn \<Rightarrow> byte list \<Rightarrow> error + NetConn" where
  "conn_Write n p =
     (if closed n then Inl WriteError
      else case writes_ok n of
          None \<Rightarrow> Inr (n\<lparr>written := written n @ p\<rparr>)
        | Some 0 \<Rightarrow> Inl WriteError
        | Some (Suc k) \<Rightarrow> Inr (n\<lparr>written := written n @ p, writes_ok := Some k\<rparr>))"

text \<open>
  \<open>io.ReadFull\<close>, which \<open>binary.Read\<close> calls with a buffer of the size of its target:
  a buffer of length 0 is filled without reading; an empty stream gives \<open>io.EOF\<close>, a
  stream shorter than the buffer \<open>io.ErrUnexpectedEOF\<close>.
\<close>

definition io_ReadFull :: "NetConn \<Rightarrow> nat \<Rightarrow> error + (byte list \<times> NetConn)" where
  "io_ReadFull n k =
     (if k = 0 then Inr ([], n)
      else if closed n \<or> incoming n = [] then Inl EOF
      else if length (incoming n) < k then Inl ErrUnexpectedEOF
      else Inr (take k (incoming n), n\<lparr>incoming := drop k (incoming n)\<rparr>))"

subsection \<open>writeRecord\<close>

text \<open>
  The header that \<open>writeRecord\<close> prepares: \<open>ContentLength: uint16(contentLength)\<close>
  truncates, \<open>PaddingLength: byte(-contentLength & 7)\<close>.
\<close>

definition record_header :: "uint16 \<Rightarrow> byte \<Rightarrow> byte list \<Rightarrow> FCgiRecord" where
  "record_header requestId recordType contentData =
     (let contentLength = int (length contentData) in
      \<lparr>Version = FCGI_VERSION, Type = recordType, RequestId = requestId,
       ContentLength = of_int contentLength,
       PaddingLength = of_int ((- contentLength) AND 7),
       Reserved = 0\<rparr>)"

text \<open>
  Three writes: the encoded header, the payload, the padding (\<open>make\<close> gives zero bytes).
  Encoding the header into a \<open>bytes.Buffer\<close> cannot fail, so that branch is left out.
\<close>

definition writeRecord ::
  "FCgiConnection \<Rightarrow> uint16 \<Rightarrow> byte \<Rightarrow> byte list \<Rightarrow> failure + FCgiConnection" where
  "writeRecord c requestId recordType contentData =
     (let header = record_header requestId recordType contentData in
      case conn_Write (Conn c) (encode_header header) of
        Inl e \<Rightarrow> Inl (Err (Errorf ''could not write header to connection'' (Some e)))
      | Inr n1 \<Rightarrow>
          (case conn_Write n1 contentData of
             Inl e \<Rightarrow> Inl (Err (Errorf ''could not write data to connection'' (Some e)))
           | Inr n2 \<Rightarrow>
               (case conn_Write n2 (replicate (unat (PaddingLength header)) 0) of
                  Inl e \<Rightarrow> Inl (Err (Errorf ''could not write padding to connection'' (Some e)))
                | Inr n3 \<Rightarrow> Inr (c\<lparr>Conn := n3\<rparr>))))"

text \<open>The bytes of one record on the wire.\<close>

definition record_bytes :: "uint16 \<Rightarrow> byte \<Rightarrow> byte list \<Rightarrow> byte list" where
  "record_bytes requestId recordType contentData =
     (let header = record_header requestId recordType contentData in
      encode_header header @ contentData @ replicate (unat (PaddingLength header)) 0)"

subsection \<open>Requests and the parameter map\<close>

text \<open>
  A Go map is a reference: \<open>FCgiRequest\<close> is passed by value, but its \<open>Params\<close>
  field points to the map object of the caller. The heap binds references to map objects;
  a reference that the heap does not bind is the \<open>nil\<close> map.
\<close>

type_synonym params = "string \<rightharpoonup> string"
type_synonym ref = nat
type_synonym heap = "ref \<rightharpoonup> params"

record FCgiRequest =
  Params :: ref
  Body :: "byte list"
  requestId :: uint16

text \<open>\<open>NewRequest\<close>: the request id is the two random bytes read by \<open>generateRequestId\<close>.\<close>

definition generateRequestId :: "byte \<Rightarrow> byte \<Rightarrow> uint16" where
  "generateRequestId t0 t1 = get16 t0 t1"

definition NewRequest :: "byte \<times> byte \<Rightarrow> ref \<Rightarrow> byte list \<Rightarrow> FCgiRequest" where
  "NewRequest token params body =
     \<lparr>Params = params, Body = body, requestId = generateRequestId (fst token) (snd token)\<rparr>"

text \<open>\<open>strconv.Itoa\<close>: the decimal digits, most significant first.\<close>

fun digits10 :: "nat \<Rightarrow> string" where
  "digits10 n =
     (if n < 10 then [''0123456789'' ! n]
      else digits10 (n div 10) @ [''0123456789'' ! (n mod 10)])"

declare digits10.simps [simp del]

definition strconv_Itoa :: "int \<Rightarrow> string" where
  "strconv_Itoa i = (if i < 0 then CHR ''-'' # digits10 (nat (- i)) else digits10 (nat i))"

subsection \<open>sendHeader, sendParams, sendBody\<close>

definition sendHeader :: "FCgiConnection \<Rightarrow> FCgiRequest \<Rightarrow> failure + FCgiConnection" where
  "sendHeader c r =
     (let flags = FCGI_FLAG_KEEP_ALIVE;
          role = FCGI_RESPONDER;
          data = [of_int (drop_bit 8 role), of_int role, flags, 0, 0, 0, 0, 0]
      in writeRecord c (requestId r) FCGI_BEGIN_REQUEST data)"

text \<open>
  The payload of one parameter: \<open>uint32(len(name))|1<<31\<close> and
  \<open>uint32(len(value))|1<<31\<close>, big-endian, then the two strings.
\<close>

definition param_payload :: "string \<Rightarrow> string \<Rightarrow> byte list" where
  "param_payload name v =
     put32 (of_nat (length name) OR push_bit 31 1) @ put32 (of_nat (length v) OR push_bit 31 1)
       @ bytes name @ bytes v"

text \<open>The loop over the map, in the order the runtime enumerates it; the first failed write returns.\<close>

fun sendParams_range ::
  "FCgiConnection \<Rightarrow> uint16 \<Rightarrow> (string \<times> string) list \<Rightarrow> failure + FCgiConnection" where
  "sendParams_range c rid [] = Inr c"
| "sendParams_range c rid ((name, v) # kvs) =
     (case writeRecord c rid FCGI_PARAMS (param_payload name v) of
        Inl e \<Rightarrow> Inl e
      | Inr c' \<Rightarrow> sendParams_range c' rid kvs)"

text \<open>
  \<open>sendParams\<close>. \<open>range_order\<close> is the order in which the runtime enumerates a map
  (Go leaves it unspecified); ranging over the \<open>nil\<close> map runs no iteration, assigning
  to it panics. The assignment changes the map object in the heap, whatever the writes do.
\<close>

definition sendParams ::
  "(params \<Rightarrow> (string \<times> string) list) \<Rightarrow> heap \<Rightarrow> FCgiConnection \<Rightarrow> FCgiRequest
     \<Rightarrow> heap \<times> (failure + FCgiConnection)" where
  "sendParams range_order h c r =
     (let assigned =
        (if length (Body r) > 0 then
           (case h (Params r) of
              None \<Rightarrow> Inl (Panic ''assignment to entry in nil map'')
            | Some m \<Rightarrow>
                Inr (h(Params r \<mapsto> m(''CONTENT_LENGTH'' \<mapsto> strconv_Itoa (int (length (Body r)))))))
         else Inr h)
      in case assigned of
        Inl f \<Rightarrow> (h, Inl f)
      | Inr h' \<Rightarrow>
          (h',
           case sendParams_range c (requestId r)
                  (case h' (Params r) of None \<Rightarrow> [] | Some m \<Rightarrow> range_order m) of
             Inl e \<Rightarrow> Inl e
           | Inr c' \<Rightarrow> writeRecord c' (requestId r) FCGI_PARAMS []))"

text \<open>The loop of \<open>sendBody\<close>: \<open>for i := 0; i < len(r.Body); i += chunkSize\<close>.\<close>

function sendBody_loop :: "FCgiConnection \<Rightarrow> FCgiRequest \<Rightarrow> nat \<Rightarrow> failure + FCgiConnection" where
  "sendBody_loop c r i =
     (if i < length (Body r) then
        (let chunkSize = 65535;
             end0 = i + chunkSize;
             end1 = (if end0 > length (Body r) then length (Body r) else end0)
         in case writeRecord c (requestId r) FCGI_STDIN (take (end1 - i) (drop i (Body r))) of
              Inl e \<Rightarrow> Inl e
            | Inr c' \<Rightarrow> sendBody_loop c' r (i + chunkSize))
      else Inr c)"
  by pat_completeness auto
termination
  by (relation "measure (\<lambda>(c, r, i). length (Body r) - i)") auto

declare sendBody_loop.simps [simp del]

definition sendBody :: "FCgiConnection \<Rightarrow> FCgiRequest \<Rightarrow> failure + FCgiConnection" where
  "sendBody c r =
     (if length (Body r) > 0 then
        (case sendBody_loop c r 0 of
           Inl e \<Rightarrow> Inl e
         | Inr c' \<Rightarrow> writeRecord c' (requestId r) FCGI_STDIN [])
      else writeRecord c (requestId r) FCGI_STDIN [])"

subsection \<open>Reading records\<close>

text \<open>\<open>binary.Read(c.Conn, binary.BigEndian, &respHeader)\<close>: 8 bytes, decoded field by field.\<close>

definition decode_header :: "byte list \<Rightarrow> FCgiRecord" where
  "decode_header bs =
     \<lparr>Version = bs ! 0, Type = bs ! 1, RequestId = get16 (bs ! 2) (bs ! 3),
      ContentLength = get16 (bs ! 4) (bs ! 5), PaddingLength = bs ! 6, Reserved = bs ! 7\<rparr>"

definition read_header :: "NetConn \<Rightarrow> error + (FCgiRecord \<times> NetConn)" where
  "read_header n =
     (case io_ReadFull n 8 of Inl e \<Rightarrow> Inl e | Inr (bs, n') \<Rightarrow> Inr (decode_header bs, n'))"

text \<open>
  One turn of the loop of \<open>readResponse\<close> up to and including the read of the record
  body: the header is read; a record of another request id makes the loop \<open>continue\<close>
  at once; otherwise a buffer of \<open>respHeader.ContentLength+uint16(respHeader.PaddingLength)\<close>
  bytes (a \<open>uint16\<close> sum) is read.
\<close>

datatype read_step = Skipped FCgiRecord | Matched FCgiRecord "byte list"

definition body_length :: "FCgiRecord \<Rightarrow> uint16" where
  "body_length h = ContentLength h + ucast (PaddingLength h)"

definition readRecord :: "uint16 \<Rightarrow> NetConn \<Rightarrow> failure + (read_step \<times> NetConn)" where
  "readRecord rid n =
     (case read_header n of
        Inl e \<Rightarrow> Inl (Err (Errorf ''could not read record header'' (Some e)))
      | Inr (respHeader, n1) \<Rightarrow>
          if rid \<noteq> RequestId respHeader then Inr (Skipped respHeader, n1)
          else (case io_ReadFull n1 (unat (body_length respHeader)) of
                  Inl e \<Rightarrow> Inl (Err (Errorf ''could not read record body'' (Some e)))
                | Inr (b, n2) \<Rightarrow> Inr (Matched respHeader b, n2)))"

lemma io_ReadFull_shorter:
  "io_ReadFull n k = Inr (bs, n') \<Longrightarrow> length (incoming n') = length (incoming n) - k"
  by (auto simp: io_ReadFull_def split: if_splits)

lemma io_ReadFull_enough:
  "io_ReadFull n k = Inr (bs, n') \<Longrightarrow> k \<le> length (incoming n) \<and> length bs = k"
  by (auto simp: io_ReadFull_def split: if_splits)

lemma readRecord_shorter:
  assumes "readRecord rid n = Inr (s, n')"
  shows "length (incoming n') < length (incoming n)"
proof -
  from assms obtain h n1 where h: "read_header n = Inr (h, n1)"
    by (auto simp: readRecord_def split: sum.splits)
  then obtain bs where bs: "io_ReadFull n 8 = Inr (bs, n1)"
    by (auto simp: read_header_def split: sum.splits)
  from io_ReadFull_shorter [OF bs] io_ReadFull_enough [OF bs]
  have n1: "length (incoming n1) < length (incoming n)" by linarith
  show ?thesis
  proof (cases "rid \<noteq> RequestId h")
    case True
    with assms h n1 show ?thesis by (simp add: readRecord_def)
  next
    case False
    with assms h obtain b where "io_ReadFull n1 (unat (body_length h)) = Inr (b, n')"
      by (auto simp: readRecord_def split: sum.splits)
    from io_ReadFull_shorter [OF this] n1 show ?thesis by simp
  qed
qed

text \<open>
  The loop: \<open>stdout = append(stdout, b[:respHeader.ContentLength]...)\<close> for a
  \<open>FCGI_STDOUT\<close> record (the slice expression panics when the buffer is shorter than
  \<open>ContentLength\<close>), nothing for other types, \<open>break\<close> on \<open>FCGI_END_REQUEST\<close>.
\<close>

function readRecords :: "uint16 \<Rightarrow> byte list \<Rightarrow> NetConn \<Rightarrow> failure + (byte list \<times> NetConn)" where
  "readRecords rid stdout n =
     (case readRecord rid n of
        Inl f \<Rightarrow> Inl f
      | Inr (Skipped respHeader, n1) \<Rightarrow> readRecords rid stdout n1
      | Inr (Matched respHeader b, n2) \<Rightarrow>
          if Type respHeader = FCGI_STDOUT \<and> length b < unat (ContentLength respHeader)
          then Inl (Panic ''slice bounds out of range'')
          else (let stdout' =
                      (if Type respHeader = FCGI_STDOUT
                       then stdout @ take (unat (ContentLength respHeader)) b else stdout)
                in if Type respHeader = FCGI_END_REQUEST then Inr (stdout', n2)
                   else readRecords rid stdout' n2))"
  by pat_completeness auto
termination
  by (relation "measure (\<lambda>(rid, stdout, n). length (incoming n))")
     (auto dest: readRecord_shorter)

declare readRecords.simps [simp del]

subsection \<open>The HTTP response\<close>

text \<open>
  The fields of \<open>http.Response\<close> that this program reads or writes. \<open>Header.Get\<close>
  returns the first value stored under the (canonical) key, or the empty string.
\<close>

record http_Response =
  Status :: string
  StatusCode :: int
  Header :: "string \<rightharpoonup> string list"
  ResponseBody :: "byte list"

definition Header_Get :: "(string \<rightharpoonup> string list) \<Rightarrow> string \<Rightarrow> string" where
  "Header_Get h key = (case h key of None \<Rightarrow> [] | Some [] \<Rightarrow> [] | Some (v # vs) \<Rightarrow> v)"

text \<open>\<open>strings.Split(s, sep)\<close> for a separator of one character.\<close>

fun strings_Split :: "string \<Rightarrow> char \<Rightarrow> string list" where
  "strings_Split [] sep = [[]]"
| "strings_Split (x # xs) sep =
     (if x = sep then [] # strings_Split xs sep
      else (case strings_Split xs sep of [] \<Rightarrow> [[x]] | w # ws \<Rightarrow> (x # w) # ws))"

text \<open>
  \<open>strconv.Atoi\<close>: an optional sign, then one or more decimal digits; the value must fit
  Go's \<open>int\<close> (64 bits). Both of its errors, syntax and range, are a \<open>*NumError\<close>.
\<close>

definition digit_of :: "char \<Rightarrow> nat option" where
  "digit_of c =
     (let k = (of_char c :: nat) in if 48 \<le> k \<and> k \<le> 57 then Some (k - 48) else None)"

fun decimal :: "nat \<Rightarrow> string \<Rightarrow> nat option" where
  "decimal acc [] = Some acc"
| "decimal acc (c # cs) =
     (case digit_of c of None \<Rightarrow> None | Some d \<Rightarrow> decimal (10 * acc + d) cs)"

definition strconv_Atoi :: "string \<Rightarrow> error + int" where
  "strconv_Atoi s =
     (let signed = (s \<noteq> [] \<and> (hd s = CHR ''+'' \<or> hd s = CHR ''-''));
          neg = (s \<noteq> [] \<and> hd s = CHR ''-'');
          ds = (if signed then tl s else s)
      in if ds = [] then Inl (NumError s)
         else (case decimal 0 ds of
                 None \<Rightarrow> Inl (NumError s)
               | Some v \<Rightarrow>
                   if neg then (if v > 2 ^ 63 then Inl (NumError s) else Inr (- int v))
                   else (if v \<ge> 2 ^ 63 then Inl (NumError s) else Inr (int v))))"

subsection \<open>readResponse\<close>

text \<open>
  \<open>http.ReadResponse\<close> belongs to Go's standard library, not to this program, so
  \<open>readResponse\<close> takes it as the parameter \<open>http_ReadResponse\<close>. The buffer it is
  given is the literal \<open>HTTP/1.0 200 OK\r\n\<close> followed by the accumulated stdout. The
  error of the branch \<open>len(s) < 2\<close> wraps the \<open>err\<close> of the enclosing scope, which is
  \<open>nil\<close> there.
\<close>

definition preamble :: "byte list" where
  "preamble = bytes (''HTTP/1.0 200 OK'' @ [CHR 0x0D, CHR 0x0A])"

definition readResponse ::
  "(byte list \<Rightarrow> error + http_Response) \<Rightarrow> FCgiConnection \<Rightarrow> FCgiRequest
     \<Rightarrow> failure + (http_Response \<times> FCgiConnection)" where
  "readResponse http_ReadResponse c req =
     (case readRecords (requestId req) [] (Conn c) of
        Inl f \<Rightarrow> Inl f
      | Inr (stdout, n) \<Rightarrow>
          (case http_ReadResponse (preamble @ stdout) of
             Inl e \<Rightarrow> Inl (Err (Errorf ''could not read response as http response'' (Some e)))
           | Inr httpResponse \<Rightarrow>
               (let status = Header_Get (Header httpResponse) ''Status'' in
                if status \<noteq> [] then
                  (let s = strings_Split status (CHR '' '') in
                   if length s < 2 then Inl (Err (Errorf ''could not parse status code'' None))
                   else (case strconv_Atoi (s ! 0) of
                           Inl e \<Rightarrow> Inl (Err (Errorf ''could not parse status code'' (Some e)))
                         | Inr code \<Rightarrow>
                             Inr (httpResponse\<lparr>Status := status, StatusCode := code\<rparr>,
                                  c\<lparr>Conn := n\<rparr>)))
                else Inr (httpResponse, c\<lparr>Conn := n\<rparr>))))"

subsection \<open>doRequest, reconnect, findConnection, SendRequest\<close>

text \<open>
  What the calls change outside the connection: the heap of parameter maps, and, for the
  statements about how often \<open>doRequest\<close> and \<open>reconnect\<close> run, the trace of their
  invocations with the slot id of the connection they ran on (each of the two appends its
  own entry on entry).
\<close>

datatype call = DoRequest int | Reconnect int

record world =
  heap :: heap
  calls :: "call list"

definition doRequest ::
  "(byte list \<Rightarrow> error + http_Response) \<Rightarrow> (params \<Rightarrow> (string \<times> string) list) \<Rightarrow> world
     \<Rightarrow> FCgiConnection \<Rightarrow> FCgiRequest \<Rightarrow> world \<times> (failure + (http_Response \<times> FCgiConnection))" where
  "doRequest http_ReadResponse range_order w c r =
     (let w0 = w\<lparr>calls := calls w @ [DoRequest (id c)]\<rparr> in
      case sendHeader c r of
        Inl f \<Rightarrow> (w0, Inl (wrapf ''could not send header'' f))
      | Inr c1 \<Rightarrow>
          (case sendParams range_order (heap w0) c1 r of
             (h1, Inl f) \<Rightarrow> (w0\<lparr>heap := h1\<rparr>, Inl (wrapf ''could not send params'' f))
           | (h1, Inr c2) \<Rightarrow>
               (case sendBody c2 r of
                  Inl f \<Rightarrow> (w0\<lparr>heap := h1\<rparr>, Inl (wrapf ''could not send body'' f))
                | Inr c3 \<Rightarrow>
                    (case readResponse http_ReadResponse c3 r of
                       Inl f \<Rightarrow> (w0\<lparr>heap := h1\<rparr>, Inl (wrapf ''could not read response'' f))
                     | Inr (resp, c4) \<Rightarrow> (w0\<lparr>heap := h1\<rparr>, Inr (resp, c4))))))"

text \<open>
  \<open>reconnect\<close>: the old socket is closed, whatever \<open>Close\<close> returns; \<open>net_Dial\<close> is
  the outcome of \<open>net.Dial("unix", c.socketPath)\<close>. Only a successful dial replaces
  \<open>c.Conn\<close>.
\<close>

definition reconnect ::
  "(string \<Rightarrow> error + NetConn) \<Rightarrow> world \<Rightarrow> FCgiConnection
     \<Rightarrow> world \<times> FCgiConnection \<times> error option" where
  "reconnect net_Dial w c =
     (let w0 = w\<lparr>calls := calls w @ [Reconnect (id c)]\<rparr>;
          c0 = c\<lparr>Conn := (Conn c)\<lparr>closed := True\<rparr>\<rparr>
      in case net_Dial (socketPath c) of
           Inl err \<Rightarrow> (w0, c0, Some (Errorf ''could not reconnect'' (Some err)))
         | Inr conn \<Rightarrow> (w0, c0\<lparr>Conn := conn\<rparr>, None))"

text \<open>
  \<open>findConnection\<close> has one parameter, the client, and one result, a connection. Each turn
  of its loop is a \<open>select\<close> between a one-second timer and a receive from the pool;
  \<open>pool i\<close> is what the \<open>i\<close>-th \<open>select\<close> chooses: \<open>None\<close> when the timer fires
  first (a log line is written and the loop goes on), \<open>Some conn\<close> when a connection is
  received. The loop has no other exit, so the model is a partial function: \<open>None\<close> is a
  call that never returns.
\<close>

partial_function (option) findConnection ::
  "(nat \<Rightarrow> FCgiConnection option) \<Rightarrow> nat \<Rightarrow> FCgiConnection option" where
  "findConnection pool i =
     (case pool i of
        None \<Rightarrow> findConnection pool (Suc i)
      | Some conn \<Rightarrow> Some conn)"

text \<open>
  \<open>SendRequest\<close>. The deferred function puts \<open>conn\<close> back into the pool on every path;
  the later contents of the pool are not part of this model. The message of the last error
  also formats the request (\<open>%v\<close>), which is left out of the string here. A panic of
  \<open>doRequest\<close> is not an error value and passes through.
\<close>

definition SendRequest ::
  "(byte list \<Rightarrow> error + http_Response) \<Rightarrow> (params \<Rightarrow> (string \<times> string) list)
     \<Rightarrow> (string \<Rightarrow> error + NetConn) \<Rightarrow> (nat \<Rightarrow> FCgiConnection option) \<Rightarrow> world \<Rightarrow> FCgiRequest
     \<Rightarrow> (world \<times> (failure + http_Response)) option" where
  "SendRequest http_ReadResponse range_order net_Dial pool w r =
     (case findConnection pool 0 of
        None \<Rightarrow> None
      | Some conn \<Rightarrow>
          Some (case doRequest http_ReadResponse range_order w conn r of
                  (w1, Inr (response, conn1)) \<Rightarrow> (w1, Inr response)
                | (w1, Inl (Panic p)) \<Rightarrow> (w1, Inl (Panic p))
                | (w1, Inl (Err err)) \<Rightarrow>
                    (case reconnect net_Dial w1 conn of
                       (w2, conn2, Some err2) \<Rightarrow>
                         (w2, Inl (Err (Errorf ''could not reconnect'' (Some err2))))
                     | (w2, conn2, None) \<Rightarrow>
                         (case doRequest http_ReadResponse range_order w2 conn2 r of
                            (w3, Inr (response, conn3)) \<Rightarrow> (w3, Inr response)
                          | (w3, Inl (Panic p)) \<Rightarrow> (w3, Inl (Panic p))
                          | (w3, Inl (Err err3)) \<Rightarrow>
                              (w3, Inl (Err (Errorf ''could not send the request'' (Some err3))))))))"

text \<open>
  The request that \<open>FpmClient.Call\<close> sends (fpm\_client.go): \<open>NewRequest(params, nil)\<close>
  on the map it has just built, the body set when it is not empty.
\<close>

definition Call_request :: "byte \<times> byte \<Rightarrow> ref \<Rightarrow> byte list \<Rightarrow> FCgiRequest" where
  "Call_request token params requestBody =
     (let fpmReq = NewRequest token params [] in
      if length requestBody > 0 then fpmReq\<lparr>Body := requestBody\<rparr> else fpmReq)"

subsection \<open>Concrete connections and requests\<close>

text \<open>A fresh connection on which no write fails, and the same with a given incoming stream.\<close>

definition conn0 :: FCgiConnection where
  "conn0 = \<lparr>Conn = \<lparr>incoming = [], written = [], writes_ok = None, closed = False\<rparr>,
            socketPath = ''/sock/php-fpm.sock'', id = 0\<rparr>"

definition conn_in :: "byte list \<Rightarrow> FCgiConnection" where
  "conn_in bs = conn0\<lparr>Conn := (Conn conn0)\<lparr>incoming := bs\<rparr>\<rparr>"

subsection \<open>Notions used to state the properties\<close>

text \<open>
  The specification's wording of the stdin stream: the body cut into consecutive chunks of
  \<open>k\<close> elements, the last one possibly shorter; an empty body has no chunk.
\<close>

function spec_chunks :: "nat \<Rightarrow> 'a list \<Rightarrow> 'a list list" where
  "spec_chunks k xs = (if k = 0 \<or> xs = [] then [] else take k xs # spec_chunks k (drop k xs))"
  by pat_completeness auto
termination
  by (relation "measure (\<lambda>(k, xs). length xs)") auto

declare spec_chunks.simps [simp del]

text \<open>A connection that is open and on which no write fails.\<close>

definition reliable :: "FCgiConnection \<Rightarrow> bool" where
  "reliable c \<longleftrightarrow> \<not> closed (Conn c) \<and> writes_ok (Conn c) = None"

text \<open>A request with the given body, request id 7 and the parameter map at reference 0.\<close>

definition req_body :: "byte list \<Rightarrow> FCgiRequest" where
  "req_body b = \<lparr>Params = 0, Body = b, requestId = 7\<rparr>"

subsection \<open>A model of http.ReadResponse\<close>

text \<open>
  The properties of \<open>readResponse\<close> below hold for every function passed as
  \<open>http_ReadResponse\<close> that reads the status line as Go's does. To run \<open>readResponse\<close>
  on concrete streams, this is a model of Go's \<open>http.ReadResponse\<close> for responses whose
  protocol is \<open>HTTP/1.0\<close> or \<open>HTTP/1.1\<close> and whose header lines are not folded: the
  status line is cut at its first space and its three-character code parsed; header lines
  are read up to the first empty line, each cut at its first colon, the key brought to its
  canonical form, the value trimmed; the rest is the body (which Go would frame by
  \<open>Content-Length\<close> where that header is present). A folded header line, which Go would
  join to the line before, is reported as malformed here.
\<close>

definition LF :: char where "LF = CHR 0x0A"
definition CR :: char where "CR = CHR 0x0D"

definition strip_cr :: "string \<Rightarrow> string" where
  "strip_cr s = (if s \<noteq> [] \<and> last s = CR then butlast s else s)"

fun header_lines :: "string \<Rightarrow> string \<Rightarrow> (string list \<times> string) option" where
  "header_lines cur [] = None"
| "header_lines cur (c # cs) =
     (if c = LF then
        (let line = strip_cr cur in
         if line = [] then Some ([], cs)
         else (case header_lines [] cs of None \<Rightarrow> None | Some (ls, b) \<Rightarrow> Some (line # ls, b)))
      else header_lines (cur @ [c]) cs)"

definition is_blank :: "char \<Rightarrow> bool" where
  "is_blank c \<longleftrightarrow> c = CHR '' '' \<or> c = CHR 0x09"

definition trim :: "string \<Rightarrow> string" where
  "trim s = rev (dropWhile is_blank (rev (dropWhile is_blank s)))"

definition is_token :: "char \<Rightarrow> bool" where
  "is_token c \<longleftrightarrow>
     (let k = (of_char c :: nat) in
      (48 \<le> k \<and> k \<le> 57) \<or> (65 \<le> k \<and> k \<le> 90) \<or> (97 \<le> k \<and> k \<le> 122)
      \<or> c \<in> set ''!#$%&*+-.^_|~'' \<or> k = 39 \<or> k = 96)"

definition to_upper :: "char \<Rightarrow> char" where
  "to_upper c =
     (case map_of (zip ''abcdefghijklmnopqrstuvwxyz'' ''ABCDEFGHIJKLMNOPQRSTUVWXYZ'') c of
        None \<Rightarrow> c | Some u \<Rightarrow> u)"

definition to_lower :: "char \<Rightarrow> char" where
  "to_lower c =
     (case map_of (zip ''ABCDEFGHIJKLMNOPQRSTUVWXYZ'' ''abcdefghijklmnopqrstuvwxyz'') c of
        None \<Rightarrow> c | Some l \<Rightarrow> l)"

fun canonical :: "bool \<Rightarrow> string \<Rightarrow> string" where
  "canonical up [] = []"
| "canonical up (c # cs) = (if up then to_upper c else to_lower c) # canonical (c = CHR ''-'') cs"

fun mime_header ::
  "string list \<Rightarrow> (string \<rightharpoonup> string list) \<Rightarrow> (string \<rightharpoonup> string list) option" where
  "mime_header [] m = Some m"
| "mime_header (l # ls) m =
     (if is_blank (hd l) \<or> CHR '':'' \<notin> set l then None
      else (let k = takeWhile (\<lambda>c. c \<noteq> CHR '':'') l;
                v = trim (drop 1 (dropWhile (\<lambda>c. c \<noteq> CHR '':'') l));
                key = canonical True k
            in if k = [] then mime_header ls m
               else if \<not> list_all is_token k then None
               else mime_header ls
                      (m(key \<mapsto> (case m key of None \<Rightarrow> [] | Some vs \<Rightarrow> vs) @ [v]))))"

definition http_ReadResponse :: "byte list \<Rightarrow> error + http_Response" where
  "http_ReadResponse bs =
     (let s = str bs;
          line = strip_cr (takeWhile (\<lambda>c. c \<noteq> LF) s);
          rest = drop 1 (dropWhile (\<lambda>c. c \<noteq> LF) s)
      in if s = [] then Inl ErrUnexpectedEOF
         else if CHR '' '' \<notin> set line then Inl (ParseError ''malformed HTTP response'')
         else
           (let proto = takeWhile (\<lambda>c. c \<noteq> CHR '' '') line;
                status = dropWhile (\<lambda>c. c = CHR '' '') (dropWhile (\<lambda>c. c \<noteq> CHR '' '') line);
                statusCode = takeWhile (\<lambda>c. c \<noteq> CHR '' '') status
            in if length statusCode \<noteq> 3 then Inl (ParseError ''malformed HTTP status code'')
               else (case strconv_Atoi statusCode of
                       Inl e \<Rightarrow> Inl (ParseError ''malformed HTTP status code'')
                     | Inr code \<Rightarrow>
                         if code < 0 then Inl (ParseError ''malformed HTTP status code'')
                         else if proto \<noteq> ''HTTP/1.0'' \<and> proto \<noteq> ''HTTP/1.1''
                         then Inl (ParseError ''malformed HTTP version'')
                         else (case header_lines [] rest of
                                 None \<Rightarrow> Inl ErrUnexpectedEOF
                               | Some (ls, body) \<Rightarrow>
                                   (case mime_header ls Map.empty of
                                      None \<Rightarrow> Inl (ParseError ''malformed MIME header line'')
                                    | Some hdr \<Rightarrow>
                                        Inr \<lparr>Status = status, StatusCode = code, Header = hdr,
                                             ResponseBody = bytes body\<rparr>)))))"

text \<open>The end of a line, and the records a FastCGI server sends.\<close>

definition CRLF :: string where "CRLF = [CR, LF]"

definition stdout_record :: "uint16 \<Rightarrow> string \<Rightarrow> byte list" where
  "stdout_record rid s = record_bytes rid FCGI_STDOUT (bytes s)"

definition end_record :: "uint16 \<Rightarrow> byte list" where
  "end_record rid = record_bytes rid FCGI_END_REQUEST [0, 0, 0, 0, 0, 0, 0, 0]"

text \<open>
  What the properties of \<open>readResponse\<close> ask of the function passed as
  \<open>http_ReadResponse\<close>: a response parsed from a buffer that starts with the preamble
  has the status code of the preamble's status line.
\<close>

definition reads_status_line :: "(byte list \<Rightarrow> error + http_Response) \<Rightarrow> bool" where
  "reads_status_line P \<longleftrightarrow> (\<forall>s r. P (preamble @ s) = Inr r \<longrightarrow> StatusCode r = 200)"

text \<open>
  The specification's wording of the status: the first whitespace-separated token of the
  header value.
\<close>

definition is_space :: "char \<Rightarrow> bool" where
  "is_space c \<longleftrightarrow> c = CHR '' '' \<or> c = CHR 0x09 \<or> c = CR \<or> c = LF"

definition spec_first_token :: "string \<Rightarrow> string" where
  "spec_first_token s = takeWhile (\<lambda>c. \<not> is_space c) (dropWhile is_space s)"

text \<open>The text before the first space, which is what the code parses.\<close>

definition first_field :: "string \<Rightarrow> string" where
  "first_field s = takeWhile (\<lambda>c. c \<noteq> CHR '' '') s"

text \<open>The heap after the assignment with which \<open>sendParams\<close> begins.\<close>

definition params_assigned :: "FCgiRequest \<Rightarrow> heap \<Rightarrow> heap" where
  "params_assigned r h =
     (if length (Body r) > 0 then
        (case h (Params r) of
           None \<Rightarrow> h
         | Some m \<Rightarrow>
             h(Params r \<mapsto> m(''CONTENT_LENGTH'' \<mapsto> strconv_Itoa (int (length (Body r))))))
      else h)"

text \<open>A pool that hands out \<open>c\<close> at once, and a pool in which no connection ever becomes free.\<close>

definition pool_of :: "FCgiConnection \<Rightarrow> nat \<Rightarrow> FCgiConnection option" where
  "pool_of c i = Some c"

definition never_free :: "nat \<Rightarrow> FCgiConnection option" where
  "never_free i = None"

text \<open>
  Streams that a FastCGI server can send to the request with id 7: a response with a
  \<open>Status\<close> header of two fields, one with the bare code, one with code 0; the first
  preceded by a record of request 9 whose 8 payload bytes read as a record header; and a
  record whose content and padding lengths add up to 65536.
\<close>

definition stream_404 :: "byte list" where
  "stream_404 = stdout_record 7 (''Status: 404 Not Found'' @ CRLF @ CRLF) @ end_record 7"

definition stream_bare_404 :: "byte list" where
  "stream_bare_404 = stdout_record 7 (''Status: 404'' @ CRLF @ CRLF) @ end_record 7"

definition stream_zero :: "byte list" where
  "stream_zero = stdout_record 7 (''Status: 0 OK'' @ CRLF @ CRLF) @ end_record 7"

definition foreign_payload :: "byte list" where
  "foreign_payload = [1, 3, 0, 7, 0, 0, 0, 0]"

definition stream_foreign :: "byte list" where
  "stream_foreign = record_bytes 9 FCGI_STDOUT foreign_payload @ stream_404"

definition wrapped_header :: FCgiRecord where
  "wrapped_header =
     \<lparr>Version = 1, Type = FCGI_STDERR, RequestId = 7, ContentLength = 65535,
      PaddingLength = 1, Reserved = 0\<rparr>"

definition stream_wrapped :: "byte list" where
  "stream_wrapped = encode_header wrapped_header @ [9, 9, 9]"

definition response_404 :: http_Response where
  "response_404 =
     \<lparr>Status = ''404 Not Found'', StatusCode = 404,
      Header = [''Status'' \<mapsto> [''404 Not Found'']], ResponseBody = []\<rparr>"

definition stream_plain :: "byte list" where
  "stream_plain = stdout_record 7 (''X-App-Route: /a'' @ CRLF @ CRLF) @ end_record 7"

definition response_plain :: http_Response where
  "response_plain =
     \<lparr>Status = ''200 OK'', StatusCode = 200,
      Header = [''X-App-Route'' \<mapsto> [''/a'']], ResponseBody = []\<rparr>"

definition response_zero :: http_Response where
  "response_zero =
     \<lparr>Status = ''0 OK'', StatusCode = 0,
      Header = [''Status'' \<mapsto> [''0 OK'']], ResponseBody = []\<rparr>"

text \<open>
  A parameter map as \<open>Call\<close> builds it, at reference 0, with the order in which it is
  enumerated before and after \<open>CONTENT_LENGTH\<close> is added; a map with one pair of 6 and
  65522 bytes; dial outcomes; a connection whose peer has gone away.
\<close>

definition params1 :: params where
  "params1 = [''REQUEST_METHOD'' \<mapsto> ''POST'']"

definition heap1 :: heap where
  "heap1 = [0 \<mapsto> params1]"

definition range1 :: "params \<Rightarrow> (string \<times> string) list" where
  "range1 m =
     (case m ''CONTENT_LENGTH'' of
        None \<Rightarrow> [(''REQUEST_METHOD'', ''POST'')]
      | Some n \<Rightarrow> [(''CONTENT_LENGTH'', n), (''REQUEST_METHOD'', ''POST'')])"

definition world1 :: world where
  "world1 = \<lparr>heap = heap1, calls = []\<rparr>"

definition big_value :: string where
  "big_value = replicate 65522 (CHR ''a'')"

definition heap_big :: heap where
  "heap_big = [0 \<mapsto> [''HTTP_X'' \<mapsto> big_value]]"

definition range_big :: "params \<Rightarrow> (string \<times> string) list" where
  "range_big m = [(''HTTP_X'', big_value)]"

definition gone :: NetConn where
  "gone = \<lparr>incoming = [], written = [], writes_ok = Some 0, closed = False\<rparr>"

definition conn_gone :: FCgiConnection where
  "conn_gone = conn0\<lparr>Conn := gone\<rparr>"

definition dial_fails :: "string \<Rightarrow> error + NetConn" where
  "dial_fails path = Inl DialError"

definition dial_gone :: "string \<Rightarrow> error + NetConn" where
  "dial_gone path = Inr gone"

definition dial_serving :: "byte list \<Rightarrow> string \<Rightarrow> error + NetConn" where
  "dial_serving bs path = Inr (Conn (conn_in bs))"

definition pool_after :: "nat \<Rightarrow> FCgiConnection \<Rightarrow> nat \<Rightarrow> FCgiConnection option" where
  "pool_after k c i = (if i < k then None else Some c)"

text \<open>The error of \<open>doRequest\<close> on a connection whose first write fails.\<close>

definition header_write_error :: error where
  "header_write_error =
     Errorf ''could not send header''
       (Some (Errorf ''could not write header to connection'' (Some WriteError)))"

section \<open>Properties\<close>

subsection \<open>Arithmetic of the record header\<close>

lemma and_7_eq_mod: "(k::int) AND 7 = k mod 8"
proof -
  have "k AND mask 3 = k mod 2 ^ 3"
    by (simp only: take_bit_eq_mask [symmetric] take_bit_eq_mod)
  then show ?thesis by (simp add: mask_eq_exp_minus_1)
qed



lemma unat_ContentLength:
  "unat (ContentLength (record_header rid t d)) = length d mod 65536"
  by (simp add: record_header_def unat_of_nat)



subsection \<open>What writeRecord writes\<close>

lemma conn_Write_written:
  "conn_Write n p = Inr n' \<Longrightarrow> written n' = written n @ p"
  by (auto simp: conn_Write_def split: if_splits option.splits nat.splits)

lemma writeRecord_written:
  assumes "writeRecord c rid t d = Inr c'"
  shows "written (Conn c') = written (Conn c) @ record_bytes rid t d"
proof -
  let ?h = "record_header rid t d"
  from assms obtain n1 n2 n3 where
    w1: "conn_Write (Conn c) (encode_header ?h) = Inr n1" and
    w2: "conn_Write n1 d = Inr n2" and
    w3: "conn_Write n2 (replicate (unat (PaddingLength ?h)) 0) = Inr n3" and
    c': "c' = c\<lparr>Conn := n3\<rparr>"
    by (auto simp: writeRecord_def Let_def split: sum.splits)
  from conn_Write_written [OF w1] conn_Write_written [OF w2] conn_Write_written [OF w3] c'
  show ?thesis by (simp add: record_bytes_def Let_def)
qed


lemma replicate_numeral_eq: "replicate (numeral k) x = x # replicate (pred_numeral k) x"
  by (simp add: numeral_eq_Suc)

lemmas eval_record =
  writeRecord_def record_header_def conn_Write_def encode_header_def put16_def
  conn0_def conn_in_def and_7_eq_mod replicate_numeral_eq
  FCGI_VERSION_def FCGI_BEGIN_REQUEST_def FCGI_END_REQUEST_def FCGI_PARAMS_def
  FCGI_STDIN_def FCGI_STDOUT_def FCGI_STDERR_def


subsection \<open>sendBody\<close>

lemma spec_chunks_Nil [simp]: "spec_chunks k [] = []"
  by (simp add: spec_chunks.simps)

lemma spec_chunks_step:
  "0 < k \<Longrightarrow> xs \<noteq> [] \<Longrightarrow> spec_chunks k xs = take k xs # spec_chunks k (drop k xs)"
  by (subst spec_chunks.simps) simp

lemma concat_spec_chunks: "0 < k \<Longrightarrow> concat (spec_chunks k xs) = xs"
proof (induction k xs rule: spec_chunks.induct)
  case (1 k xs)
  show ?case
  proof (cases "xs = []")
    case True
    then show ?thesis by simp
  next
    case False
    with 1 show ?thesis by (simp add: spec_chunks_step)
  qed
qed

lemma spec_chunks_lengths:
  "0 < k \<Longrightarrow> ch \<in> set (spec_chunks k xs) \<Longrightarrow> 0 < length ch \<and> length ch \<le> k"
proof (induction k xs rule: spec_chunks.induct)
  case (1 k xs)
  show ?case
  proof (cases "xs = []")
    case True
    with 1 show ?thesis by simp
  next
    case False
    with 1 show ?thesis by (auto simp: spec_chunks_step)
  qed
qed

lemma spec_chunks_butlast:
  "0 < k \<Longrightarrow> ch \<in> set (butlast (spec_chunks k xs)) \<Longrightarrow> length ch = k"
proof (induction k xs rule: spec_chunks.induct)
  case (1 k xs)
  show ?case
  proof (cases "xs = []")
    case True
    with 1 show ?thesis by simp
  next
    case False
    note ne = False
    show ?thesis
    proof (cases "drop k xs = []")
      case True
      with 1 ne show ?thesis by (simp add: spec_chunks_step)
    next
      case False
      then have "spec_chunks k (drop k xs) \<noteq> []"
        using 1(2) by (subst spec_chunks.simps) simp
      with 1 ne False show ?thesis
        by (auto simp: spec_chunks_step)
    qed
  qed
qed

lemma sendBody_loop_written:
  "sendBody_loop c r i = Inr c' \<Longrightarrow>
   written (Conn c') =
     written (Conn c)
       @ concat (map (record_bytes (requestId r) FCGI_STDIN) (spec_chunks 65535 (drop i (Body r))))"
proof (induction c r i rule: sendBody_loop.induct)
  case (1 c r i)
  show ?case
  proof (cases "i < length (Body r)")
    case False
    with 1(2) show ?thesis by (simp add: sendBody_loop.simps)
  next
    case True
    define ch where "ch = take 65535 (drop i (Body r))"
    have eq: "take ((if length (Body r) < i + 65535 then length (Body r) else i + 65535) - i)
                (drop i (Body r)) = ch"
      by (simp add: ch_def)
    from True 1(2) obtain c1 where
      w: "writeRecord c (requestId r) FCGI_STDIN ch = Inr c1" and
      l: "sendBody_loop c1 r (i + 65535) = Inr c'"
      by (subst (asm) sendBody_loop.simps) (auto simp: Let_def eq split: sum.splits)
    have ne: "drop i (Body r) \<noteq> []" using True by simp
    have "written (Conn c') = written (Conn c1)
       @ concat (map (record_bytes (requestId r) FCGI_STDIN)
           (spec_chunks 65535 (drop (i + 65535) (Body r))))"
      using 1(1) [OF True refl refl refl _ l] w by (simp add: eq)
    moreover have "written (Conn c1) = written (Conn c) @ record_bytes (requestId r) FCGI_STDIN ch"
      by (rule writeRecord_written [OF w])
    moreover have "spec_chunks 65535 (drop i (Body r)) = ch # spec_chunks 65535 (drop (i + 65535) (Body r))"
      using ne by (simp add: spec_chunks_step ch_def add.commute)
    ultimately show ?thesis by simp
  qed
qed


lemma writeRecord_reliable:
  assumes "reliable c"
  shows "\<exists>c'. writeRecord c rid t d = Inr c' \<and> reliable c'"
  using assms by (simp add: reliable_def writeRecord_def conn_Write_def Let_def)

lemma sendBody_loop_reliable:
  "reliable c \<Longrightarrow> \<exists>c'. sendBody_loop c r i = Inr c' \<and> reliable c'"
proof (induction c r i rule: sendBody_loop.induct)
  case (1 c r i)
  show ?case
  proof (cases "i < length (Body r)")
    case False
    with 1(2) show ?thesis by (simp add: sendBody_loop.simps)
  next
    case True
    define ch where "ch = take 65535 (drop i (Body r))"
    have eq: "take ((if length (Body r) < i + 65535 then length (Body r) else i + 65535) - i)
                (drop i (Body r)) = ch"
      by (simp add: ch_def)
    from writeRecord_reliable [OF 1(2)] obtain c1 where
      w: "writeRecord c (requestId r) FCGI_STDIN ch = Inr c1" and r1: "reliable c1"
      by blast
    from 1(1) [OF True refl refl refl _ r1] w obtain c' where
      "sendBody_loop c1 r (i + 65535) = Inr c'" "reliable c'"
      by (auto simp: eq)
    with True w show ?thesis
      by (subst sendBody_loop.simps) (simp add: Let_def eq)
  qed
qed

lemma sendBody_reliable:
  assumes "reliable c"
  shows "\<exists>c'. sendBody c r = Inr c' \<and> reliable c'"
proof (cases "length (Body r) > 0")
  case False
  with writeRecord_reliable [OF assms] show ?thesis by (simp add: sendBody_def)
next
  case True
  from sendBody_loop_reliable [OF assms] obtain c1 where
    "sendBody_loop c r 0 = Inr c1" "reliable c1" by blast
  with True writeRecord_reliable [of c1] show ?thesis
    by (auto simp: sendBody_def)
qed

lemma sendBody_written:
  assumes "sendBody c r = Inr c'"
  shows "written (Conn c') =
           written (Conn c)
             @ concat (map (record_bytes (requestId r) FCGI_STDIN) (spec_chunks 65535 (Body r)))
             @ record_bytes (requestId r) FCGI_STDIN []"
proof (cases "length (Body r) > 0")
  case False
  with assms writeRecord_written [of c "requestId r" FCGI_STDIN "[]" c'] show ?thesis
    by (simp add: sendBody_def)
next
  case True
  with assms obtain c1 where
    l: "sendBody_loop c r 0 = Inr c1" and
    w: "writeRecord c1 (requestId r) FCGI_STDIN [] = Inr c'"
    by (auto simp: sendBody_def split: sum.splits)
  from sendBody_loop_written [OF l] writeRecord_written [OF w] show ?thesis by simp
qed

lemma spec_chunks_one:
  "0 < k \<Longrightarrow> xs \<noteq> [] \<Longrightarrow> length xs \<le> k \<Longrightarrow> spec_chunks k xs = [xs]"
  by (simp add: spec_chunks_step)

lemma spec_chunks_two:
  "0 < k \<Longrightarrow> k < length xs \<Longrightarrow> length xs \<le> 2 * k \<Longrightarrow>
   spec_chunks k xs = [take k xs, drop k xs]"
proof -
  assume k: "0 < k" and a: "k < length xs" and b: "length xs \<le> 2 * k"
  then have "xs \<noteq> []" by auto
  with k have "spec_chunks k xs = take k xs # spec_chunks k (drop k xs)"
    by (rule spec_chunks_step)
  moreover have "spec_chunks k (drop k xs) = [drop k xs]"
    using k a b by (intro spec_chunks_one) auto
  ultimately show ?thesis by simp
qed

lemma ContentLength_small:
  "length d \<le> 65535 \<Longrightarrow> unat (ContentLength (record_header rid t d)) = length d"
  by (simp add: unat_ContentLength)

text \<open>
  Claim C6. For every body, \<open>sendBody\<close> emits (when no write fails, and on a reliable
  connection none does) the consecutive chunks of the body in order as STDIN records, each
  of 65535 bytes but for a possibly shorter last one, then one STDIN record of length 0;
  the header of each record carries the length of its chunk. An empty body gives the
  zero-length record alone, 65535 bytes give records of 65535 and 0 bytes, 65536 bytes
  records of 65535, 1 and 0 bytes.
\<close>

theorem sendBody_chunks:
  "(reliable c \<longrightarrow> (\<exists>c'. sendBody c r = Inr c'))
   \<and> (sendBody c r = Inr c' \<longrightarrow>
        written (Conn c') =
          written (Conn c)
            @ concat (map (record_bytes (requestId r) FCGI_STDIN) (spec_chunks 65535 (Body r)))
            @ record_bytes (requestId r) FCGI_STDIN [])
   \<and> concat (spec_chunks 65535 (Body r)) = Body r
   \<and> (\<forall>ch \<in> set (butlast (spec_chunks 65535 (Body r))). length ch = 65535)
   \<and> (\<forall>ch \<in> set (spec_chunks 65535 (Body r)).
        0 < length ch \<and> length ch \<le> 65535
        \<and> unat (ContentLength (record_header (requestId r) FCGI_STDIN ch)) = length ch)
   \<and> unat (ContentLength (record_header (requestId r) FCGI_STDIN [])) = 0
   \<and> (Body r = [] \<longrightarrow> spec_chunks 65535 (Body r) = [])
   \<and> (length (Body r) = 65535 \<longrightarrow> map length (spec_chunks 65535 (Body r)) = [65535])
   \<and> (length (Body r) = 65536 \<longrightarrow> map length (spec_chunks 65535 (Body r)) = [65535, 1])"
proof -
  have 1: "reliable c \<longrightarrow> (\<exists>c'. sendBody c r = Inr c')"
    using sendBody_reliable [of c r] by blast
  have 2: "sendBody c r = Inr c' \<longrightarrow>
        written (Conn c') =
          written (Conn c)
            @ concat (map (record_bytes (requestId r) FCGI_STDIN) (spec_chunks 65535 (Body r)))
            @ record_bytes (requestId r) FCGI_STDIN []"
    using sendBody_written [of c r c'] by blast
  have 3: "concat (spec_chunks 65535 (Body r)) = Body r"
    by (rule concat_spec_chunks) simp
  have 4: "\<forall>ch \<in> set (butlast (spec_chunks 65535 (Body r))). length ch = 65535"
    using spec_chunks_butlast [of 65535 _ "Body r"] by simp
  have 5: "\<forall>ch \<in> set (spec_chunks 65535 (Body r)).
        0 < length ch \<and> length ch \<le> 65535
        \<and> unat (ContentLength (record_header (requestId r) FCGI_STDIN ch)) = length ch"
    using spec_chunks_lengths [of 65535 _ "Body r"] by (simp add: ContentLength_small)
  have 6: "unat (ContentLength (record_header (requestId r) FCGI_STDIN [])) = 0"
    by (simp add: ContentLength_small)
  have 7: "Body r = [] \<longrightarrow> spec_chunks 65535 (Body r) = []" by simp
  have 8: "length (Body r) = 65535 \<longrightarrow> map length (spec_chunks 65535 (Body r)) = [65535]"
  proof
    assume l: "length (Body r) = 65535"
    then have "Body r \<noteq> []" by auto
    then have "spec_chunks 65535 (Body r) = [Body r]"
      using l by (intro spec_chunks_one) simp_all
    with l show "map length (spec_chunks 65535 (Body r)) = [65535]" by simp
  qed
  have 9: "length (Body r) = 65536 \<longrightarrow> map length (spec_chunks 65535 (Body r)) = [65535, 1]"
  proof
    assume l: "length (Body r) = 65536"
    then have "spec_chunks 65535 (Body r) = [take 65535 (Body r), drop 65535 (Body r)]"
      by (intro spec_chunks_two) simp_all
    with l show "map length (spec_chunks 65535 (Body r)) = [65535, 1]" by simp
  qed
  from 1 2 3 4 5 6 7 8 9 show ?thesis by blast
qed

theorem sendBody_chunks_witness:
  "sendBody conn0 (req_body [1, 2, 3])
     = Inr (conn0\<lparr>Conn := (Conn conn0)\<lparr>written :=
         [1, 5, 0, 7, 0, 3, 5, 0, 1, 2, 3, 0, 0, 0, 0, 0] @ [1, 5, 0, 7, 0, 0, 0, 0]\<rparr>\<rparr>)
   \<and> spec_chunks 65535 (Body (req_body [1, 2, 3])) = [[1, 2, 3]]
   \<and> sendBody conn0 (req_body [])
     = Inr (conn0\<lparr>Conn := (Conn conn0)\<lparr>written := [1, 5, 0, 7, 0, 0, 0, 0]\<rparr>\<rparr>)
   \<and> (\<exists>c'. sendBody conn0 (req_body (replicate 65535 0)) = Inr c')
   \<and> map length (spec_chunks 65535 (Body (req_body (replicate 65535 0)))) = [65535]
   \<and> (\<exists>c'. sendBody conn0 (req_body (replicate 65536 0)) = Inr c')
   \<and> map length (spec_chunks 65535 (Body (req_body (replicate 65536 0)))) = [65535, 1]"
proof -
  have rel: "reliable conn0" by (simp add: reliable_def conn0_def)
  have ch: "spec_chunks 65535 (Body (req_body [1, 2, 3])) = [[1, 2, 3]]"
    by (simp add: req_body_def spec_chunks_one)
  have e: "record_bytes 7 FCGI_STDIN [1, 2, 3] = [1, 5, 0, 7, 0, 3, 5, 0, 1, 2, 3, 0, 0, 0, 0, 0]"
          "record_bytes 7 FCGI_STDIN [] = [1, 5, 0, 7, 0, 0, 0, 0]"
    by (simp_all add: record_bytes_def eval_record)
  from sendBody_chunks [of conn0 "req_body [1, 2, 3]"] rel obtain c1 where
    s1: "sendBody conn0 (req_body [1, 2, 3]) = Inr c1" by blast
  have "sendBody conn0 (req_body [1, 2, 3])
     = Inr (conn0\<lparr>Conn := (Conn conn0)\<lparr>written :=
         [1, 5, 0, 7, 0, 3, 5, 0, 1, 2, 3, 0, 0, 0, 0, 0] @ [1, 5, 0, 7, 0, 0, 0, 0]\<rparr>\<rparr>)"
    by (simp add: sendBody_def sendBody_loop.simps [of _ _ 0] sendBody_loop.simps [of _ _ 65535]
          req_body_def eval_record)
  moreover have "sendBody conn0 (req_body [])
     = Inr (conn0\<lparr>Conn := (Conn conn0)\<lparr>written := [1, 5, 0, 7, 0, 0, 0, 0]\<rparr>\<rparr>)"
    by (simp add: sendBody_def req_body_def eval_record)
  moreover have "\<exists>c'. sendBody conn0 (req_body (replicate 65535 0)) = Inr c'"
    using sendBody_chunks [of conn0 "req_body (replicate 65535 0)"] rel by blast
  moreover have "map length (spec_chunks 65535 (Body (req_body (replicate 65535 0)))) = [65535]"
    using sendBody_chunks [of conn0 "req_body (replicate 65535 0)"]
    by (simp add: req_body_def)
  moreover have "\<exists>c'. sendBody conn0 (req_body (replicate 65536 0)) = Inr c'"
    using sendBody_chunks [of conn0 "req_body (replicate 65536 0)"] rel by blast
  moreover have "map length (spec_chunks 65535 (Body (req_body (replicate 65536 0)))) = [65535, 1]"
    using sendBody_chunks [of conn0 "req_body (replicate 65536 0)"]
    by (simp add: req_body_def)
  ultimately show ?thesis using ch by blast
qed

subsection \<open>Bytes and strings\<close>

lemma length_put32 [simp]: "length (put32 w) = 4"
  by (simp add: put32_def)

lemma length_bytes [simp]: "length (bytes s) = length s"
  by (simp add: bytes_def)

lemma bytes_Nil [simp]: "bytes [] = []"
  by (simp add: bytes_def)

lemma str_bytes [simp]: "str (bytes s) = s"
  by (induction s) (simp_all add: str_def bytes_def unat_of_nat)

lemma str_append [simp]: "str (a @ b) = str a @ str b"
  by (simp add: str_def)

subsection \<open>Reading one record\<close>

lemma unat_ucast_byte: "unat (ucast (b :: byte) :: uint16) = unat b"
proof -
  have "unat b < 2 ^ 8" using unsigned_less [of b, where 'a = nat] by simp
  then have "unat b < 2 ^ 16" by simp
  then show ?thesis by (simp add: unsigned_ucast_eq take_bit_nat_eq_self)
qed

lemma unat_body_length:
  "unat (body_length h) = (unat (ContentLength h) + unat (PaddingLength h)) mod 65536"
  by (simp add: body_length_def unat_word_ariths unat_ucast_byte)

lemma body_length_wrapped:
  assumes "65536 \<le> unat (ContentLength h) + unat (PaddingLength h)"
  shows "unat (body_length h) = unat (ContentLength h) + unat (PaddingLength h) - 65536"
    and "unat (body_length h) < unat (ContentLength h)"
proof -
  have c: "unat (ContentLength h) < 65536" using unsigned_less [of "ContentLength h"] by simp
  have p: "unat (PaddingLength h) < 256" using unsigned_less [of "PaddingLength h"] by simp
  from assms c p show "unat (body_length h) = unat (ContentLength h) + unat (PaddingLength h) - 65536"
    by (simp add: unat_body_length mod_if)
  with assms c p show "unat (body_length h) < unat (ContentLength h)" by linarith
qed

lemma io_ReadFull_drop:
  "io_ReadFull n k = Inr (bs, n') \<Longrightarrow>
   incoming n' = drop k (incoming n) \<and> bs = take k (incoming n) \<and> k \<le> length (incoming n)"
  by (auto simp: io_ReadFull_def split: if_splits)

lemma read_header_drop:
  "read_header n = Inr (h, n1) \<Longrightarrow> incoming n1 = drop 8 (incoming n) \<and> 8 \<le> length (incoming n)"
  by (auto simp: read_header_def split: sum.splits dest: io_ReadFull_drop)

text \<open>
  Claim C9. In \<open>readResponse\<close> the number of bytes read after the header of a record of
  the request is a \<open>uint16\<close> sum: it is \<open>(content_length + padding_length) mod 65536\<close>.
  A successful read takes exactly the header and that many bytes from the stream, so for a
  record with \<open>content_length + padding_length \<ge> 65536\<close> fewer bytes are consumed than
  the record occupies.
\<close>

theorem readRecord_body_length_wraps:
  assumes "read_header n = Inr (h, n1)" and "RequestId h = rid"
  shows "unat (body_length h) = (unat (ContentLength h) + unat (PaddingLength h)) mod 65536
       \<and> (readRecord rid n = Inr (s, n') \<longrightarrow>
            s = Matched h (take (unat (body_length h)) (incoming n1))
            \<and> incoming n' = drop (8 + unat (body_length h)) (incoming n)
            \<and> 8 + unat (body_length h) \<le> length (incoming n))
       \<and> (65536 \<le> unat (ContentLength h) + unat (PaddingLength h) \<longrightarrow>
            8 + unat (body_length h) < 8 + unat (ContentLength h) + unat (PaddingLength h))"
proof -
  have 1: "unat (body_length h) = (unat (ContentLength h) + unat (PaddingLength h)) mod 65536"
    by (rule unat_body_length)
  have 2: "readRecord rid n = Inr (s, n') \<longrightarrow>
            s = Matched h (take (unat (body_length h)) (incoming n1))
            \<and> incoming n' = drop (8 + unat (body_length h)) (incoming n)
            \<and> 8 + unat (body_length h) \<le> length (incoming n)"
  proof
    assume r: "readRecord rid n = Inr (s, n')"
    with assms obtain b where
      b: "io_ReadFull n1 (unat (body_length h)) = Inr (b, n')" and s: "s = Matched h b"
      by (auto simp: readRecord_def split: sum.splits)
    from io_ReadFull_drop [OF b] read_header_drop [OF assms(1)] s
    show "s = Matched h (take (unat (body_length h)) (incoming n1))
            \<and> incoming n' = drop (8 + unat (body_length h)) (incoming n)
            \<and> 8 + unat (body_length h) \<le> length (incoming n)"
      by (auto simp: add.commute)
  qed
  have 3: "65536 \<le> unat (ContentLength h) + unat (PaddingLength h) \<longrightarrow>
            8 + unat (body_length h) < 8 + unat (ContentLength h) + unat (PaddingLength h)"
    using body_length_wrapped(2) [of h] by auto
  from 1 2 3 show ?thesis by blast
qed

text \<open>
  For a \<open>FCGI_STDOUT\<close> record the loop then slices the short buffer up to
  \<open>ContentLength\<close>, which panics.
\<close>

lemma readRecords_wrapped_stdout_panics:
  assumes "read_header n = Inr (h, n1)" and "RequestId h = rid" and "Type h = FCGI_STDOUT"
    and "65536 \<le> unat (ContentLength h) + unat (PaddingLength h)"
    and "readRecord rid n = Inr (s, n')"
  shows "readRecords rid out n = Inl (Panic ''slice bounds out of range'')"
proof -
  from assms obtain b where
    b: "io_ReadFull n1 (unat (body_length h)) = Inr (b, n')" and s: "s = Matched h b"
    by (auto simp: readRecord_def split: sum.splits)
  from io_ReadFull_enough [OF b] body_length_wrapped(2) [OF assms(4)]
  have "length b < unat (ContentLength h)" by simp
  with assms s show ?thesis by (subst readRecords.simps) simp
qed


subsection \<open>The status of the response\<close>

lemma strings_Split_ne [simp]: "strings_Split s sep \<noteq> []"
  by (induction s) (auto split: list.splits)

lemma hd_strings_Split: "hd (strings_Split s sep) = takeWhile (\<lambda>c. c \<noteq> sep) s"
  by (induction s) (auto split: list.splits)

lemma length_strings_Split: "length (strings_Split s sep) = Suc (length (filter (\<lambda>c. c = sep) s))"
  by (induction s) (auto split: list.splits)

lemma strings_Split_short: "length (strings_Split s sep) < 2 \<longleftrightarrow> sep \<notin> set s"
  by (auto simp: length_strings_Split filter_empty_conv)

lemma strings_Split_0: "strings_Split s (CHR '' '') ! 0 = first_field s"
  using hd_strings_Split [of s "CHR '' ''"] by (simp add: hd_conv_nth first_field_def)

lemma readResponse_parsed:
  assumes "readRecords (requestId req) [] (Conn c) = Inr (stdout, n)"
    and "P (preamble @ stdout) = Inr r"
  shows "readResponse P c req =
     (let status = Header_Get (Header r) ''Status'' in
      if status = [] then Inr (r, c\<lparr>Conn := n\<rparr>)
      else if CHR '' '' \<notin> set status then Inl (Err (Errorf ''could not parse status code'' None))
      else (case strconv_Atoi (first_field status) of
              Inl e \<Rightarrow> Inl (Err (Errorf ''could not parse status code'' (Some e)))
            | Inr code \<Rightarrow> Inr (r\<lparr>Status := status, StatusCode := code\<rparr>, c\<lparr>Conn := n\<rparr>)))"
  using assms by (simp add: readResponse_def Let_def strings_Split_short strings_Split_0)

lemma readResponse_unparsed:
  assumes "readRecords (requestId req) [] (Conn c) = Inr (stdout, n)"
    and "P (preamble @ stdout) = Inl e"
  shows "readResponse P c req = Inl (Err (Errorf ''could not read response as http response'' (Some e)))"
  using assms by (simp add: readResponse_def)

lemma reads_status_line_http: "reads_status_line http_ReadResponse"
  unfolding reads_status_line_def
proof (intro allI impI)
  fix s r
  assume a: "http_ReadResponse (preamble @ s) = Inr r"
  have p: "str (preamble @ s) = ''HTTP/1.0 200 OK'' @ [CR, LF] @ str s"
    by (simp add: preamble_def CR_def LF_def)
  have l: "takeWhile (\<lambda>c. c \<noteq> LF) (str (preamble @ s)) = ''HTTP/1.0 200 OK'' @ [CR]"
    unfolding p by (simp add: LF_def CR_def)
  from a show "StatusCode r = 200"
    unfolding http_ReadResponse_def Let_def l
    by (auto simp: strip_cr_def strconv_Atoi_def digit_of_def
          split: if_splits sum.splits option.splits prod.splits)
qed


text \<open>
  Claim C2, as the code has it. Once the records of the response have been read and for a
  function \<open>P\<close> in the place of \<open>http.ReadResponse\<close> that reads the status line:
  when the value of the \<open>Status\<close> header is empty or the header absent, the parsed
  response is returned with status code 200; when the value is not empty, contains a space
  and the text before its first space is an optionally signed decimal integer, the response
  is returned with that integer as status code and the whole value as textual status; and
  \<open>readResponse\<close> fails exactly when \<open>P\<close> fails or the value is not empty and either
  has no space or the text before its first space is not such an integer.
\<close>

theorem readResponse_status:
  assumes "readRecords (requestId req) [] (Conn c) = Inr (stdout, n)"
    and "reads_status_line P"
  shows
    "(P (preamble @ stdout) = Inr r \<and> Header_Get (Header r) ''Status'' = [] \<longrightarrow>
        readResponse P c req = Inr (r, c\<lparr>Conn := n\<rparr>) \<and> StatusCode r = 200)
   \<and> (P (preamble @ stdout) = Inr r \<and> Header_Get (Header r) ''Status'' \<noteq> []
        \<and> CHR '' '' \<in> set (Header_Get (Header r) ''Status'')
        \<and> strconv_Atoi (first_field (Header_Get (Header r) ''Status'')) = Inr code \<longrightarrow>
        readResponse P c req =
          Inr (r\<lparr>Status := Header_Get (Header r) ''Status'', StatusCode := code\<rparr>, c\<lparr>Conn := n\<rparr>))
   \<and> ((\<exists>f. readResponse P c req = Inl f) \<longleftrightarrow>
        (\<exists>e. P (preamble @ stdout) = Inl e)
        \<or> (\<exists>r'. P (preamble @ stdout) = Inr r' \<and> Header_Get (Header r') ''Status'' \<noteq> []
              \<and> (CHR '' '' \<notin> set (Header_Get (Header r') ''Status'')
                  \<or> (\<exists>e. strconv_Atoi (first_field (Header_Get (Header r') ''Status'')) = Inl e))))"
proof -
  have 1: "P (preamble @ stdout) = Inr r \<and> Header_Get (Header r) ''Status'' = [] \<longrightarrow>
        readResponse P c req = Inr (r, c\<lparr>Conn := n\<rparr>) \<and> StatusCode r = 200"
    using readResponse_parsed [of req c stdout n P r, OF assms(1)] assms(2)
    by (auto simp: reads_status_line_def)
  have 2: "P (preamble @ stdout) = Inr r \<and> Header_Get (Header r) ''Status'' \<noteq> []
        \<and> CHR '' '' \<in> set (Header_Get (Header r) ''Status'')
        \<and> strconv_Atoi (first_field (Header_Get (Header r) ''Status'')) = Inr code \<longrightarrow>
        readResponse P c req =
          Inr (r\<lparr>Status := Header_Get (Header r) ''Status'', StatusCode := code\<rparr>, c\<lparr>Conn := n\<rparr>)"
    using readResponse_parsed [of req c stdout n P r, OF assms(1)] by (simp add: Let_def)
  have 3: "(\<exists>f. readResponse P c req = Inl f) \<longleftrightarrow>
        (\<exists>e. P (preamble @ stdout) = Inl e)
        \<or> (\<exists>r'. P (preamble @ stdout) = Inr r' \<and> Header_Get (Header r') ''Status'' \<noteq> []
              \<and> (CHR '' '' \<notin> set (Header_Get (Header r') ''Status'')
                  \<or> (\<exists>e. strconv_Atoi (first_field (Header_Get (Header r') ''Status'')) = Inl e)))"
  proof (cases "P (preamble @ stdout)")
    case (Inl e)
    with readResponse_unparsed [of req c stdout n P, OF assms(1) Inl] show ?thesis by simp
  next
    case (Inr r')
    with readResponse_parsed [of req c stdout n P, OF assms(1) Inr] show ?thesis
      by (auto simp: Let_def split: if_splits sum.splits)
  qed
  from 1 2 3 show ?thesis by blast
qed

text \<open>
  Claim C8, as the code has it. A successful result of \<open>readResponse\<close> has status code
  200 when the \<open>Status\<close> header is absent or empty, and otherwise the integer that the
  text before the first space of its value denotes; so its status code is 0 only when the
  \<open>Status\<close> header is present and that text denotes 0.
\<close>

theorem readResponse_status_code:
  assumes "reads_status_line P" and "readResponse P c req = Inr (resp, c')"
  shows "(Header_Get (Header resp) ''Status'' = [] \<longrightarrow> StatusCode resp = 200)
       \<and> (Header_Get (Header resp) ''Status'' \<noteq> [] \<longrightarrow>
            strconv_Atoi (first_field (Header_Get (Header resp) ''Status'')) = Inr (StatusCode resp))
       \<and> (StatusCode resp = 0 \<longrightarrow>
            Header_Get (Header resp) ''Status'' \<noteq> []
            \<and> strconv_Atoi (first_field (Header_Get (Header resp) ''Status'')) = Inr 0)"
proof -
  from assms(2) obtain stdout n where
    rec: "readRecords (requestId req) [] (Conn c) = Inr (stdout, n)"
    by (auto simp: readResponse_def split: sum.splits)
  from assms(2) rec obtain r where r: "P (preamble @ stdout) = Inr r"
    by (auto simp: readResponse_def split: sum.splits)
  from assms(1) r have c200: "StatusCode r = 200" by (auto simp: reads_status_line_def)
  let ?st = "Header_Get (Header r) ''Status''"
  show ?thesis
  proof (cases "?st = []")
    case True
    with readResponse_parsed [of req c stdout n P, OF rec r] assms(2) have "resp = r" by simp
    with True c200 show ?thesis by simp
  next
    case False
    with readResponse_parsed [of req c stdout n P, OF rec r] assms(2) obtain code where
      "strconv_Atoi (first_field ?st) = Inr code"
      "resp = r\<lparr>Status := ?st, StatusCode := code\<rparr>"
      by (auto simp: Let_def split: if_splits sum.splits)
    with False show ?thesis by simp
  qed
qed


subsection \<open>readResponse on concrete streams\<close>

lemmas eval_http =
  http_ReadResponse_def preamble_def LF_def CR_def CRLF_def strip_cr_def is_blank_def trim_def
  is_token_def to_upper_def to_lower_def strconv_Atoi_def digit_of_def Let_def

lemmas eval_read =
  readRecord_def read_header_def io_ReadFull_def decode_header_def get16_def body_length_def
  stdout_record_def end_record_def record_bytes_def bytes_def CRLF_def CR_def LF_def

lemma readRecords_stream_404:
  "readRecords 7 [] (Conn (conn_in stream_404))
     = Inr (bytes (''Status: 404 Not Found'' @ CRLF @ CRLF), Conn conn0)"
  by (simp add: stream_404_def readRecords.simps [of 7] eval_read eval_record)

lemma readRecords_stream_bare_404:
  "readRecords 7 [] (Conn (conn_in stream_bare_404))
     = Inr (bytes (''Status: 404'' @ CRLF @ CRLF), Conn conn0)"
  by (simp add: stream_bare_404_def readRecords.simps [of 7] eval_read eval_record)

lemma readRecords_stream_zero:
  "readRecords 7 [] (Conn (conn_in stream_zero))
     = Inr (bytes (''Status: 0 OK'' @ CRLF @ CRLF), Conn conn0)"
  by (simp add: stream_zero_def readRecords.simps [of 7] eval_read eval_record)

lemma http_404:
  "http_ReadResponse (preamble @ bytes (''Status: 404 Not Found'' @ CRLF @ CRLF))
     = Inr \<lparr>Status = ''200 OK'', StatusCode = 200,
            Header = [''Status'' \<mapsto> [''404 Not Found'']], ResponseBody = []\<rparr>"
  by (simp add: eval_http)

lemma http_bare_404:
  "http_ReadResponse (preamble @ bytes (''Status: 404'' @ CRLF @ CRLF))
     = Inr \<lparr>Status = ''200 OK'', StatusCode = 200,
            Header = [''Status'' \<mapsto> [''404'']], ResponseBody = []\<rparr>"
  by (simp add: eval_http)

lemma http_zero:
  "http_ReadResponse (preamble @ bytes (''Status: 0 OK'' @ CRLF @ CRLF))
     = Inr \<lparr>Status = ''200 OK'', StatusCode = 200,
            Header = [''Status'' \<mapsto> [''0 OK'']], ResponseBody = []\<rparr>"
  by (simp add: eval_http)

lemma http_empty: "http_ReadResponse (preamble @ []) = Inl ErrUnexpectedEOF"
  by (simp add: eval_http)

lemma requestId_req_body [simp]: "requestId (req_body b) = 7"
  by (simp add: req_body_def)

lemma readResponse_stream_404:
  "readResponse http_ReadResponse (conn_in stream_404) (req_body []) = Inr (response_404, conn0)"
proof -
  have "readRecords (requestId (req_body [])) [] (Conn (conn_in stream_404))
     = Inr (bytes (''Status: 404 Not Found'' @ CRLF @ CRLF), Conn conn0)"
    by (simp add: readRecords_stream_404)
  from readResponse_parsed [of _ _ _ _ http_ReadResponse, OF this http_404]
  show ?thesis
    by (simp add: Let_def Header_Get_def first_field_def strconv_Atoi_def digit_of_def
          response_404_def conn_in_def conn0_def)
qed

lemma readRecords_stream_foreign:
  "readRecords 7 [] (Conn (conn_in stream_foreign)) = Inr ([], Conn (conn_in stream_404))"
  by (simp add: stream_foreign_def foreign_payload_def readRecords.simps [of 7]
        readRecord_def read_header_def io_ReadFull_def decode_header_def get16_def body_length_def
        record_bytes_def eval_record)

lemma readResponse_stream_foreign:
  "readResponse http_ReadResponse (conn_in stream_foreign) (req_body [])
     = Inl (Err (Errorf ''could not read response as http response'' (Some ErrUnexpectedEOF)))"
proof -
  have "readRecords (requestId (req_body [])) [] (Conn (conn_in stream_foreign))
     = Inr ([], Conn (conn_in stream_404))"
    by (simp add: readRecords_stream_foreign)
  from readResponse_unparsed [of _ _ _ _ http_ReadResponse, OF this http_empty]
  show ?thesis .
qed


lemma readRecords_stream_plain:
  "readRecords 7 [] (Conn (conn_in stream_plain))
     = Inr (bytes (''X-App-Route: /a'' @ CRLF @ CRLF), Conn conn0)"
  by (simp add: stream_plain_def readRecords.simps [of 7] eval_read eval_record)

lemma http_plain:
  "http_ReadResponse (preamble @ bytes (''X-App-Route: /a'' @ CRLF @ CRLF)) = Inr response_plain"
  by (simp add: eval_http response_plain_def)

lemma readRecord_mismatch:
  assumes "read_header n = Inr (h, n1)" and "RequestId h \<noteq> rid"
  shows "readRecord rid n = Inr (Skipped h, n1) \<and> incoming n1 = drop 8 (incoming n)"
  using assms read_header_drop [OF assms(1)] by (simp add: readRecord_def)

text \<open>
  Claim C1. A record of another request id is left by reading its header alone: the loop
  continues without reading the payload and the padding, so the next header is read from
  the payload of the skipped record. On \<open>stream_foreign\<close>, the response to request 7
  preceded by a record of request 9, the 8 payload bytes of that record are taken for an
  \<open>END_REQUEST\<close> record of request 7: the loop ends with an empty stdout, the real
  response stays unread on the connection, and \<open>readResponse\<close> fails, where the same
  response without the foreign record is read as a 404.
\<close>

theorem readResponse_foreign_record:
  "readRecord 7 (Conn (conn_in stream_foreign))
     = Inr (Skipped \<lparr>Version = 1, Type = FCGI_STDOUT, RequestId = 9, ContentLength = 8,
                     PaddingLength = 0, Reserved = 0\<rparr>,
            Conn (conn_in (foreign_payload @ stream_404)))
   \<and> readRecords 7 [] (Conn (conn_in stream_foreign)) = Inr ([], Conn (conn_in stream_404))
   \<and> readResponse http_ReadResponse (conn_in stream_foreign) (req_body [])
     = Inl (Err (Errorf ''could not read response as http response'' (Some ErrUnexpectedEOF)))
   \<and> readResponse http_ReadResponse (conn_in stream_404) (req_body [])
     = Inr (response_404, conn0)"
proof -
  have "readRecord 7 (Conn (conn_in stream_foreign))
     = Inr (Skipped \<lparr>Version = 1, Type = FCGI_STDOUT, RequestId = 9, ContentLength = 8,
                     PaddingLength = 0, Reserved = 0\<rparr>,
            Conn (conn_in (foreign_payload @ stream_404)))"
    by (simp add: stream_foreign_def foreign_payload_def
        readRecord_def read_header_def io_ReadFull_def decode_header_def get16_def
        record_bytes_def eval_record)
  with readRecords_stream_foreign readResponse_stream_foreign readResponse_stream_404
  show ?thesis by blast
qed

text \<open>Claim C9 on a record of content length 65535 and padding length 1: no byte is read after the header.\<close>

theorem readRecord_body_length_wraps_witness:
  "read_header (Conn (conn_in stream_wrapped)) = Inr (wrapped_header, Conn (conn_in [9, 9, 9]))
   \<and> RequestId wrapped_header = 7
   \<and> unat (ContentLength wrapped_header) + unat (PaddingLength wrapped_header) = 65536
   \<and> unat (body_length wrapped_header) = 0
   \<and> readRecord 7 (Conn (conn_in stream_wrapped))
       = Inr (Matched wrapped_header [], Conn (conn_in [9, 9, 9]))
   \<and> 8 + unat (body_length wrapped_header)
       < 8 + unat (ContentLength wrapped_header) + unat (PaddingLength wrapped_header)"
proof -
  have rh: "read_header (Conn (conn_in stream_wrapped))
              = Inr (wrapped_header, Conn (conn_in [9, 9, 9]))"
    by (simp add: stream_wrapped_def wrapped_header_def read_header_def io_ReadFull_def
          decode_header_def get16_def eval_record)
  have rid: "RequestId wrapped_header = 7" by (simp add: wrapped_header_def)
  have sum: "unat (ContentLength wrapped_header) + unat (PaddingLength wrapped_header) = 65536"
    by (simp add: wrapped_header_def)
  have rr: "readRecord 7 (Conn (conn_in stream_wrapped))
       = Inr (Matched wrapped_header [], Conn (conn_in [9, 9, 9]))"
    using rh rid by (simp add: readRecord_def body_length_def wrapped_header_def io_ReadFull_def)
  from readRecord_body_length_wraps [OF rh rid, of "Matched wrapped_header []" "Conn (conn_in [9, 9, 9])"]
    rh rid sum rr
  show ?thesis by simp
qed

text \<open>
  Claim C2 as stated fails on \<open>Status: 404\<close>: the header is present, its first
  whitespace-separated token is the decimal integer 404, and \<open>readResponse\<close> fails,
  because \<open>strings.Split(status, " ")\<close> gives fewer than two fields.
\<close>

theorem readResponse_status_counterexample:
  "readRecords 7 [] (Conn (conn_in stream_bare_404))
     = Inr (bytes (''Status: 404'' @ CRLF @ CRLF), Conn conn0)
   \<and> http_ReadResponse (preamble @ bytes (''Status: 404'' @ CRLF @ CRLF))
     = Inr \<lparr>Status = ''200 OK'', StatusCode = 200,
            Header = [''Status'' \<mapsto> [''404'']], ResponseBody = []\<rparr>
   \<and> Header_Get [''Status'' \<mapsto> [''404'']] ''Status'' = ''404''
   \<and> strconv_Atoi (spec_first_token ''404'') = Inr 404
   \<and> readResponse http_ReadResponse (conn_in stream_bare_404) (req_body [])
     = Inl (Err (Errorf ''could not parse status code'' None))"
proof -
  have rec: "readRecords (requestId (req_body [])) [] (Conn (conn_in stream_bare_404))
     = Inr (bytes (''Status: 404'' @ CRLF @ CRLF), Conn conn0)"
    by (simp add: readRecords_stream_bare_404)
  have "readResponse http_ReadResponse (conn_in stream_bare_404) (req_body [])
     = Inl (Err (Errorf ''could not parse status code'' None))"
    using readResponse_parsed [of _ _ _ _ http_ReadResponse, OF rec http_bare_404]
    by (simp add: Let_def Header_Get_def)
  moreover have "strconv_Atoi (spec_first_token ''404'') = Inr 404"
    by (simp add: spec_first_token_def is_space_def CR_def LF_def strconv_Atoi_def digit_of_def)
  moreover have "Header_Get [''Status'' \<mapsto> [''404'']] ''Status'' = ''404''"
    by (simp add: Header_Get_def)
  ultimately show ?thesis using readRecords_stream_bare_404 http_bare_404 by blast
qed

text \<open>Claim C2 on \<open>Status: 404 Not Found\<close>, on a response without \<open>Status\<close>, and on \<open>Status: 404\<close>.\<close>

theorem readResponse_status_witness:
  "reads_status_line http_ReadResponse
   \<and> readRecords (requestId (req_body [])) [] (Conn (conn_in stream_404))
       = Inr (bytes (''Status: 404 Not Found'' @ CRLF @ CRLF), Conn conn0)
   \<and> readResponse http_ReadResponse (conn_in stream_404) (req_body [])
       = Inr (response_404, conn0)
   \<and> readRecords (requestId (req_body [])) [] (Conn (conn_in stream_plain))
       = Inr (bytes (''X-App-Route: /a'' @ CRLF @ CRLF), Conn conn0)
   \<and> readResponse http_ReadResponse (conn_in stream_plain) (req_body [])
       = Inr (response_plain, conn0)
   \<and> (\<exists>f. readResponse http_ReadResponse (conn_in stream_bare_404) (req_body []) = Inl f)"
proof -
  have r1: "readRecords (requestId (req_body [])) [] (Conn (conn_in stream_404))
       = Inr (bytes (''Status: 404 Not Found'' @ CRLF @ CRLF), Conn conn0)"
    by (simp add: readRecords_stream_404)
  have r2: "readRecords (requestId (req_body [])) [] (Conn (conn_in stream_plain))
       = Inr (bytes (''X-App-Route: /a'' @ CRLF @ CRLF), Conn conn0)"
    by (simp add: readRecords_stream_plain)
  have r3: "readRecords (requestId (req_body [])) [] (Conn (conn_in stream_bare_404))
     = Inr (bytes (''Status: 404'' @ CRLF @ CRLF), Conn conn0)"
    by (simp add: readRecords_stream_bare_404)
  have a: "readResponse http_ReadResponse (conn_in stream_404) (req_body [])
       = Inr (response_404, conn0)"
    using readResponse_status [where P = http_ReadResponse and code = 404
          and r = "\<lparr>Status = ''200 OK'', StatusCode = 200,
                    Header = [''Status'' \<mapsto> [''404 Not Found'']], ResponseBody = []\<rparr>",
        OF r1 reads_status_line_http] http_404
    by (simp add: Header_Get_def first_field_def strconv_Atoi_def digit_of_def response_404_def
          conn_in_def conn0_def)
  have b: "readResponse http_ReadResponse (conn_in stream_plain) (req_body [])
       = Inr (response_plain, conn0)"
    using readResponse_status [where P = http_ReadResponse and r = response_plain,
        OF r2 reads_status_line_http] http_plain
    by (simp add: Header_Get_def response_plain_def conn_in_def conn0_def)
  have c: "\<exists>f. readResponse http_ReadResponse (conn_in stream_bare_404) (req_body []) = Inl f"
    using readResponse_status [where P = http_ReadResponse,
        OF r3 reads_status_line_http] http_bare_404
    by (simp add: Header_Get_def)
  from reads_status_line_http r1 r2 a b c show ?thesis by blast
qed

lemma readResponse_stream_zero:
  "readResponse http_ReadResponse (conn_in stream_zero) (req_body []) = Inr (response_zero, conn0)"
proof -
  have "readRecords (requestId (req_body [])) [] (Conn (conn_in stream_zero))
     = Inr (bytes (''Status: 0 OK'' @ CRLF @ CRLF), Conn conn0)"
    by (simp add: readRecords_stream_zero)
  from readResponse_parsed [of _ _ _ _ http_ReadResponse, OF this http_zero]
  show ?thesis
    by (simp add: Let_def Header_Get_def first_field_def strconv_Atoi_def digit_of_def
          response_zero_def conn_in_def conn0_def)
qed

text \<open>Claim C8 as stated fails on \<open>Status: 0 OK\<close>: the result is a success with status code 0.\<close>

theorem readResponse_status_code_counterexample:
  "readResponse http_ReadResponse (conn_in stream_zero) (req_body []) = Inr (response_zero, conn0)
   \<and> StatusCode response_zero = 0"
  using readResponse_stream_zero by (simp add: response_zero_def)

text \<open>Claim C8 on \<open>Status: 0 OK\<close> and on a response without \<open>Status\<close>.\<close>

theorem readResponse_status_code_witness:
  "reads_status_line http_ReadResponse
   \<and> readResponse http_ReadResponse (conn_in stream_zero) (req_body []) = Inr (response_zero, conn0)
   \<and> StatusCode response_zero = 0
   \<and> Header_Get (Header response_zero) ''Status'' = ''0 OK''
   \<and> strconv_Atoi (first_field ''0 OK'') = Inr 0
   \<and> readResponse http_ReadResponse (conn_in stream_plain) (req_body []) = Inr (response_plain, conn0)
   \<and> Header_Get (Header response_plain) ''Status'' = []
   \<and> StatusCode response_plain = 200"
proof -
  have z: "StatusCode response_zero = 0" "Header_Get (Header response_zero) ''Status'' = ''0 OK''"
    by (simp_all add: response_zero_def Header_Get_def)
  have p: "Header_Get (Header response_plain) ''Status'' = []"
    by (simp add: response_plain_def Header_Get_def)
  have rp: "readResponse http_ReadResponse (conn_in stream_plain) (req_body [])
       = Inr (response_plain, conn0)"
  proof -
    have "readRecords (requestId (req_body [])) [] (Conn (conn_in stream_plain))
       = Inr (bytes (''X-App-Route: /a'' @ CRLF @ CRLF), Conn conn0)"
      by (simp add: readRecords_stream_plain)
    from readResponse_parsed [of _ _ _ _ http_ReadResponse, OF this http_plain] p
    show ?thesis by (simp add: Let_def conn_in_def conn0_def)
  qed
  from readResponse_status_code [OF reads_status_line_http readResponse_stream_zero] z
  have "strconv_Atoi (first_field ''0 OK'') = Inr 0" by simp
  moreover from readResponse_status_code [OF reads_status_line_http rp] p
  have "StatusCode response_plain = 200" by simp
  ultimately show ?thesis
    using reads_status_line_http readResponse_stream_zero z p rp by blast
qed

subsection \<open>sendParams\<close>

lemma length_param_payload:
  "length (param_payload name v) = 4 + 4 + length name + length v"
  by (simp add: param_payload_def)

lemma put32_high_bit: "bit (hd (put32 (w OR push_bit 31 1))) 7"
  by (simp add: put32_def bit_simps)

lemma sendParams_range_written:
  "sendParams_range c rid kvs = Inr c' \<Longrightarrow>
   written (Conn c') =
     written (Conn c)
       @ concat (map (\<lambda>(name, v). record_bytes rid FCGI_PARAMS (param_payload name v)) kvs)"
proof (induction kvs arbitrary: c)
  case Nil
  then show ?case by simp
next
  case (Cons kv kvs)
  obtain name v where kv: "kv = (name, v)" by (cases kv)
  from Cons.prems kv obtain c1 where
    w: "writeRecord c rid FCGI_PARAMS (param_payload name v) = Inr c1" and
    l: "sendParams_range c1 rid kvs = Inr c'"
    by (auto split: sum.splits)
  from Cons.IH [OF l] writeRecord_written [OF w] kv show ?case by simp
qed

lemma sendParams_range_reliable:
  "reliable c \<Longrightarrow> \<exists>c'. sendParams_range c rid kvs = Inr c' \<and> reliable c'"
proof (induction kvs arbitrary: c)
  case Nil
  then show ?case by simp
next
  case (Cons kv kvs)
  obtain name v where kv: "kv = (name, v)" by (cases kv)
  from writeRecord_reliable [OF Cons.prems] obtain c1 where
    w: "writeRecord c rid FCGI_PARAMS (param_payload name v) = Inr c1" and r1: "reliable c1"
    by blast
  from Cons.IH [OF r1] w kv show ?case by simp
qed

lemma sendParams_heap: "fst (sendParams ro h c r) = params_assigned r h"
  by (simp add: sendParams_def params_assigned_def Let_def split: option.splits)

lemma params_assigned_idem: "params_assigned r (params_assigned r h) = params_assigned r h"
  by (auto simp: params_assigned_def split: option.splits)

lemma sendParams_written:
  assumes "sendParams ro h c r = (h', Inr c')"
  shows "written (Conn c') =
           written (Conn c)
             @ concat (map (\<lambda>(name, v). record_bytes (requestId r) FCGI_PARAMS (param_payload name v))
                 (case h' (Params r) of None \<Rightarrow> [] | Some m \<Rightarrow> ro m))
             @ record_bytes (requestId r) FCGI_PARAMS []"
proof -
  define kvs where "kvs = (case h' (Params r) of None \<Rightarrow> [] | Some m \<Rightarrow> ro m)"
  from assms obtain c2 where
    l: "sendParams_range c (requestId r) kvs = Inr c2" and
    w: "writeRecord c2 (requestId r) FCGI_PARAMS [] = Inr c'"
    unfolding kvs_def
    by (auto simp: sendParams_def Let_def split: if_splits option.splits sum.splits)
  from sendParams_range_written [OF l] writeRecord_written [OF w] show ?thesis
    by (simp add: kvs_def)
qed

lemma sendParams_reliable:
  assumes "reliable c" and "length (Body r) = 0 \<or> h (Params r) \<noteq> None"
  shows "\<exists>c'. sendParams ro h c r = (params_assigned r h, Inr c') \<and> reliable c'"
proof -
  define h' where "h' = params_assigned r h"
  define kvs where "kvs = (case h' (Params r) of None \<Rightarrow> [] | Some m \<Rightarrow> ro m)"
  from sendParams_range_reliable [OF assms(1)] obtain c1 where
    l: "sendParams_range c (requestId r) kvs = Inr c1" and r1: "reliable c1" by blast
  from writeRecord_reliable [OF r1] obtain c2 where
    w: "writeRecord c1 (requestId r) FCGI_PARAMS [] = Inr c2" and r2: "reliable c2" by blast
  from assms(2) l w have "sendParams ro h c r = (h', Inr c2)"
    by (auto simp: sendParams_def Let_def h'_def kvs_def params_assigned_def split: option.splits)
  with r2 show ?thesis by (auto simp: h'_def)
qed

lemma record_bytes_65536:
  "length d = 65536 \<Longrightarrow> record_bytes rid t d = [1, t] @ put16 rid @ [0, 0, 0, 0] @ d"
  by (simp add: record_bytes_def record_header_def encode_header_def put16_def FCGI_VERSION_def
        and_7_eq_mod)

text \<open>
  Claim C7. The payload of the record of a pair is the two lengths in the 4-byte form, the
  key and the value, \<open>4 + 4 + len(k) + len(v)\<close> bytes, but the content length in the
  header of the record is that number cut to a \<open>uint16\<close>, and \<open>sendParams\<close> neither
  splits the payload nor refuses it. For the key \<open>HTTP_X\<close> with a value of 65522 bytes
  the payload has 65536 bytes and the header carries the content length 0: what is written
  is the header of an empty PARAMS record, the 65536 bytes of the payload, and the
  terminating record.
\<close>

theorem sendParams_oversized_pair:
  "length (param_payload ''HTTP_X'' big_value) = 4 + 4 + length ''HTTP_X'' + length big_value
   \<and> length (param_payload ''HTTP_X'' big_value) = 65536
   \<and> ContentLength (record_header 7 FCGI_PARAMS (param_payload ''HTTP_X'' big_value)) = 0
   \<and> (\<exists>c'. sendParams range_big heap_big conn0 (req_body []) = (heap_big, Inr c')
          \<and> written (Conn c') =
               [1, 4, 0, 7, 0, 0, 0, 0] @ param_payload ''HTTP_X'' big_value
                 @ [1, 4, 0, 7, 0, 0, 0, 0])"
proof -
  have len: "length (param_payload ''HTTP_X'' big_value) = 65536"
    by (simp add: length_param_payload big_value_def)
  have cl: "ContentLength (record_header 7 FCGI_PARAMS (param_payload ''HTTP_X'' big_value)) = 0"
    by (simp add: record_header_def len)
  have rel: "reliable conn0" by (simp add: reliable_def conn0_def)
  have pa: "params_assigned (req_body []) heap_big = heap_big"
    by (simp add: params_assigned_def req_body_def)
  from sendParams_reliable [OF rel, of "req_body []" heap_big range_big] pa obtain c' where
    s: "sendParams range_big heap_big conn0 (req_body []) = (heap_big, Inr c')"
    by (auto simp: req_body_def)
  have "written (Conn c') =
               [1, 4, 0, 7, 0, 0, 0, 0] @ param_payload ''HTTP_X'' big_value
                 @ [1, 4, 0, 7, 0, 0, 0, 0]"
    using sendParams_written [OF s] record_bytes_65536 [OF len, of 7 FCGI_PARAMS]
    by (simp add: heap_big_def req_body_def range_big_def conn0_def put16_def FCGI_PARAMS_def
          record_bytes_def eval_record)
  with s len cl show ?thesis by (auto simp: length_param_payload)
qed


text \<open>
  For the pairs that fit a record the statement holds: one PARAMS record for each pair of the
  map, in the order of the iteration, then one empty PARAMS record; the content length in
  the header is \<open>4 + 4 + len(k) + len(v)\<close> whenever that is at most 65535.
\<close>

lemma sendParams_pairs:
  assumes "sendParams ro h c r = (h', Inr c')" and "h' (Params r) = Some m"
    and "map_of (ro m) = m" and "distinct (map fst (ro m))"
  shows "written (Conn c') =
           written (Conn c)
             @ concat (map (\<lambda>(name, v). record_bytes (requestId r) FCGI_PARAMS (param_payload name v))
                 (ro m))
             @ record_bytes (requestId r) FCGI_PARAMS []"
    and "\<forall>name v. m name = Some v \<longleftrightarrow> (name, v) \<in> set (ro m)"
    and "\<forall>(name, v) \<in> set (ro m).
           length (param_payload name v) = 4 + 4 + length name + length v
           \<and> (4 + 4 + length name + length v \<le> 65535 \<longrightarrow>
                unat (ContentLength (record_header (requestId r) FCGI_PARAMS (param_payload name v)))
                  = 4 + 4 + length name + length v)"
proof -
  from sendParams_written [OF assms(1)] assms(2)
  show "written (Conn c') =
           written (Conn c)
             @ concat (map (\<lambda>(name, v). record_bytes (requestId r) FCGI_PARAMS (param_payload name v))
                 (ro m))
             @ record_bytes (requestId r) FCGI_PARAMS []"
    by simp
  from assms(3,4) show "\<forall>name v. m name = Some v \<longleftrightarrow> (name, v) \<in> set (ro m)"
    by (metis map_of_eq_Some_iff)
  show "\<forall>(name, v) \<in> set (ro m).
           length (param_payload name v) = 4 + 4 + length name + length v
           \<and> (4 + 4 + length name + length v \<le> 65535 \<longrightarrow>
                unat (ContentLength (record_header (requestId r) FCGI_PARAMS (param_payload name v)))
                  = 4 + 4 + length name + length v)"
    by (auto simp: length_param_payload unat_ContentLength)
qed

subsection \<open>The parameter map is changed in place\<close>

lemma doRequest_heap:
  "heap (fst (doRequest P ro w c r)) =
     (case sendHeader c r of Inl f \<Rightarrow> heap w | Inr c1 \<Rightarrow> params_assigned r (heap w))"
proof (cases "sendHeader c r")
  case (Inl f)
  then show ?thesis by (simp add: doRequest_def Let_def)
next
  case (Inr c1)
  obtain h1 res where sp: "sendParams ro (heap w) c1 r = (h1, res)"
    by (cases "sendParams ro (heap w) c1 r")
  with sendParams_heap [of ro "heap w" c1 r] have h1: "h1 = params_assigned r (heap w)" by simp
  from Inr sp h1 show ?thesis
    by (simp add: doRequest_def Let_def split: sum.splits prod.splits)
qed

lemma doRequest_calls:
  "calls (fst (doRequest P ro w c r)) = calls w @ [DoRequest (id c)]"
proof (cases "sendHeader c r")
  case (Inl f)
  then show ?thesis by (simp add: doRequest_def Let_def)
next
  case (Inr c1)
  obtain h1 res where sp: "sendParams ro (heap w) c1 r = (h1, res)"
    by (cases "sendParams ro (heap w) c1 r")
  from Inr sp show ?thesis
    by (simp add: doRequest_def Let_def split: sum.splits prod.splits)
qed

lemma reconnect_world:
  "reconnect net_Dial w c = (w2, c2, e) \<Longrightarrow>
   heap w2 = heap w \<and> calls w2 = calls w @ [Reconnect (id c)] \<and> id c2 = id c
   \<and> socketPath c2 = socketPath c"
  by (auto simp: reconnect_def Let_def split: sum.splits)

lemma SendRequest_heap:
  assumes "SendRequest P ro net_Dial pool w r = Some (w', res)"
    and "findConnection pool 0 = Some conn" and "sendHeader conn r = Inr c1"
  shows "heap w' = params_assigned r (heap w)"
proof -
  obtain w1 res1 where d1: "doRequest P ro w conn r = (w1, res1)"
    by (cases "doRequest P ro w conn r")
  from doRequest_heap [of P ro w conn r] d1 assms(3)
  have h1: "heap w1 = params_assigned r (heap w)" by simp
  show ?thesis
  proof (cases res1)
    case (Inr x)
    with assms(1,2) d1 h1 show ?thesis
      by (auto simp: SendRequest_def split: prod.splits)
  next
    case (Inl f)
    show ?thesis
    proof (cases f)
      case (Panic p)
      with Inl assms(1,2) d1 h1 show ?thesis by (auto simp: SendRequest_def)
    next
      case (Err err)
      obtain w2 conn2 e2 where rc: "reconnect net_Dial w1 conn = (w2, conn2, e2)"
        by (cases "reconnect net_Dial w1 conn")
      from reconnect_world [OF rc] h1 have h2: "heap w2 = params_assigned r (heap w)" by simp
      show ?thesis
      proof (cases e2)
        case (Some e)
        with Err Inl assms(1,2) d1 rc h2 show ?thesis by (auto simp: SendRequest_def)
      next
        case None
        obtain w3 res3 where d3: "doRequest P ro w2 conn2 r = (w3, res3)"
          by (cases "doRequest P ro w2 conn2 r")
        from doRequest_heap [of P ro w2 conn2 r] d3 h2
        have h3: "heap w3 = params_assigned r (heap w)"
          by (auto simp: params_assigned_idem split: sum.splits)
        from None Err Inl assms(1,2) d1 rc d3 h3 show ?thesis
          by (auto simp: SendRequest_def split: sum.splits failure.splits prod.splits)
      qed
    qed
  qed
qed

text \<open>
  Claim C10. With a body that is not empty, \<open>sendParams\<close> leaves the heap with the map
  of the request updated at \<open>CONTENT_LENGTH\<close> to the decimal length of the body: the
  key is present afterwards, every other key of the map and every other map of the heap is
  as before, and a second \<open>sendParams\<close> on the same request, as in the retry, changes
  nothing more. The request built by \<open>Call\<close> holds the reference of the map it was given,
  and after \<open>SendRequest\<close> has returned, the heap holds the updated map at that reference.
\<close>

theorem sendParams_content_length_in_place:
  assumes "length (Body r) > 0" and "h (Params r) = Some m"
  shows
    "fst (sendParams ro h c r)
       = h(Params r \<mapsto> m(''CONTENT_LENGTH'' \<mapsto> strconv_Itoa (int (length (Body r)))))
   \<and> (\<exists>m'. fst (sendParams ro h c r) (Params r) = Some m'
          \<and> m' ''CONTENT_LENGTH'' = Some (strconv_Itoa (int (length (Body r))))
          \<and> (\<forall>k. k \<noteq> ''CONTENT_LENGTH'' \<longrightarrow> m' k = m k))
   \<and> (\<forall>q. q \<noteq> Params r \<longrightarrow> fst (sendParams ro h c r) q = h q)
   \<and> fst (sendParams ror (fst (sendParams ro h c r)) cr r) = fst (sendParams ro h c r)
   \<and> (requestBody \<noteq> [] \<longrightarrow>
        Params (Call_request token p requestBody) = p
        \<and> Body (Call_request token p requestBody) = requestBody)
   \<and> (SendRequest P ro net_Dial pool w r = Some (w', res) \<and> findConnection pool 0 = Some conn
        \<and> sendHeader conn r = Inr ch \<and> heap w = h \<longrightarrow>
        heap w' = h(Params r \<mapsto> m(''CONTENT_LENGTH'' \<mapsto> strconv_Itoa (int (length (Body r))))))"
proof -
  let ?h' = "h(Params r \<mapsto> m(''CONTENT_LENGTH'' \<mapsto> strconv_Itoa (int (length (Body r)))))"
  have pa: "params_assigned r h = ?h'"
    using assms by (simp add: params_assigned_def)
  have 1: "fst (sendParams ro h c r) = ?h'"
    by (simp add: sendParams_heap pa)
  have 2: "\<exists>m'. fst (sendParams ro h c r) (Params r) = Some m'
          \<and> m' ''CONTENT_LENGTH'' = Some (strconv_Itoa (int (length (Body r))))
          \<and> (\<forall>k. k \<noteq> ''CONTENT_LENGTH'' \<longrightarrow> m' k = m k)"
    unfolding 1 by simp
  have 3: "\<forall>q. q \<noteq> Params r \<longrightarrow> fst (sendParams ro h c r) q = h q"
    unfolding 1 by simp
  have 4: "fst (sendParams ror (fst (sendParams ro h c r)) cr r) = fst (sendParams ro h c r)"
    by (simp add: sendParams_heap params_assigned_idem)
  have 5: "requestBody \<noteq> [] \<longrightarrow>
        Params (Call_request token p requestBody) = p
        \<and> Body (Call_request token p requestBody) = requestBody"
    by (simp add: Call_request_def NewRequest_def Let_def)
  have 6: "SendRequest P ro net_Dial pool w r = Some (w', res) \<and> findConnection pool 0 = Some conn
        \<and> sendHeader conn r = Inr ch \<and> heap w = h \<longrightarrow> heap w' = ?h'"
    using SendRequest_heap [of P ro net_Dial pool w r w' res conn ch] pa by auto
  from 1 2 3 4 5 6 show ?thesis by blast
qed


lemma findConnection_pool_of: "findConnection (pool_of c) 0 = Some c"
  by (subst findConnection.simps) (simp add: pool_of_def)

lemma sendHeader_reliable: "reliable c \<Longrightarrow> \<exists>c1. sendHeader c r = Inr c1 \<and> reliable c1"
  unfolding sendHeader_def Let_def by (rule writeRecord_reliable)

lemma SendRequest_returns:
  "findConnection pool 0 = Some conn \<Longrightarrow> \<exists>w' res. SendRequest P ro net_Dial pool w r = Some (w', res)"
  by (simp add: SendRequest_def split: prod.splits sum.splits failure.splits option.splits)

text \<open>
  Claim C10 on the request that \<open>Call\<close> builds for a body of 4 bytes: the map
  \<open>REQUEST_METHOD = POST\<close> has the entry \<open>CONTENT_LENGTH = 4\<close> after
  \<open>sendParams\<close> and after \<open>SendRequest\<close>.
\<close>

theorem sendParams_content_length_in_place_witness:
  "length (Body (Call_request (0, 7) 0 [1, 2, 3, 4])) > 0
   \<and> heap1 (Params (Call_request (0, 7) 0 [1, 2, 3, 4])) = Some params1
   \<and> fst (sendParams range1 heap1 conn0 (Call_request (0, 7) 0 [1, 2, 3, 4]))
       = heap1(0 \<mapsto> params1(''CONTENT_LENGTH'' \<mapsto> ''4''))
   \<and> (\<exists>w' res. SendRequest http_ReadResponse range1 dial_fails (pool_of conn0) world1
                   (Call_request (0, 7) 0 [1, 2, 3, 4]) = Some (w', res)
          \<and> heap w' = heap1(0 \<mapsto> params1(''CONTENT_LENGTH'' \<mapsto> ''4'')))"
proof -
  let ?r = "Call_request (0, 7) 0 [1, 2, 3, 4]"
  have b: "length (Body ?r) > 0" and l: "length (Body ?r) = 4" and p: "Params ?r = 0"
    by (simp_all add: Call_request_def NewRequest_def)
  have h: "heap1 (Params ?r) = Some params1" by (simp add: p heap1_def)
  have i: "strconv_Itoa 4 = ''4''" by (simp add: strconv_Itoa_def digits10.simps)
  have rel: "reliable conn0" by (simp add: reliable_def conn0_def)
  from sendHeader_reliable [OF rel] obtain c1 where sh: "sendHeader conn0 ?r = Inr c1" by blast
  from SendRequest_returns [OF findConnection_pool_of] obtain w' res where
    sr: "SendRequest http_ReadResponse range1 dial_fails (pool_of conn0) world1 ?r = Some (w', res)"
    by blast
  have hw: "heap world1 = heap1" by (simp add: world1_def)
  note t = sendParams_content_length_in_place [where h = heap1 and r = ?r and m = params1
        and ch = c1 and conn = conn0 and pool = "pool_of conn0" and w = world1 and w' = w'
        and res = res and ro = range1 and P = http_ReadResponse and net_Dial = dial_fails
        and c = conn0, OF b h]
  from t have 1: "fst (sendParams range1 heap1 conn0 ?r)
       = heap1(0 \<mapsto> params1(''CONTENT_LENGTH'' \<mapsto> ''4''))"
    by (simp add: p l i)
  from t sr sh hw findConnection_pool_of
  have 2: "heap w' = heap1(0 \<mapsto> params1(''CONTENT_LENGTH'' \<mapsto> ''4''))"
    by (simp add: p l i)
  from b h 1 2 sr show ?thesis by blast
qed

subsection \<open>findConnection\<close>

lemma findConnection_skip:
  "(\<forall>j. i \<le> j \<and> j < i + k \<longrightarrow> pool j = None) \<Longrightarrow>
   findConnection pool i = findConnection pool (i + k)"
proof (induction k arbitrary: i)
  case 0
  then show ?case by simp
next
  case (Suc k)
  from Suc.prems have "pool i = None" by simp
  then have "findConnection pool i = findConnection pool (Suc i)"
    by (subst findConnection.simps) simp
  also have "\<dots> = findConnection pool (Suc i + k)"
    using Suc.prems by (intro Suc.IH) auto
  finally show ?case by simp
qed

lemma findConnection_found:
  assumes "pool n = Some c" and "\<forall>i<n. pool i = None"
  shows "findConnection pool 0 = Some c"
proof -
  from assms(2) have "findConnection pool 0 = findConnection pool (0 + n)"
    by (intro findConnection_skip) simp
  also have "\<dots> = Some c"
    using assms(1) by (subst findConnection.simps) simp
  finally show ?thesis .
qed

lemma findConnection_returned:
  assumes "findConnection pool i = Some c"
  shows "\<exists>n. i \<le> n \<and> pool n = Some c \<and> (\<forall>j. i \<le> j \<and> j < n \<longrightarrow> pool j = None)"
proof (rule findConnection.raw_induct
    [where P = "\<lambda>pool i c. \<exists>n. i \<le> n \<and> pool n = Some c \<and> (\<forall>j. i \<le> j \<and> j < n \<longrightarrow> pool j = None)",
     OF _ assms])
  fix f :: "(nat \<Rightarrow> FCgiConnection option) \<Rightarrow> nat \<Rightarrow> FCgiConnection option"
  fix pool i c
  assume IH: "\<And>pool i c. f pool i = Some c \<Longrightarrow>
      \<exists>n. i \<le> n \<and> pool n = Some c \<and> (\<forall>j. i \<le> j \<and> j < n \<longrightarrow> pool j = None)"
    and step: "(case pool i of None \<Rightarrow> f pool (Suc i) | Some conn \<Rightarrow> Some conn) = Some c"
  show "\<exists>n. i \<le> n \<and> pool n = Some c \<and> (\<forall>j. i \<le> j \<and> j < n \<longrightarrow> pool j = None)"
  proof (cases "pool i")
    case None
    with step have "f pool (Suc i) = Some c" by simp
    from IH [OF this] obtain n where
      n: "Suc i \<le> n" "pool n = Some c" "\<forall>j. Suc i \<le> j \<and> j < n \<longrightarrow> pool j = None"
      by blast
    have "\<forall>j. i \<le> j \<and> j < n \<longrightarrow> pool j = None"
    proof (intro allI impI)
      fix j assume "i \<le> j \<and> j < n"
      then show "pool j = None" using None n(3) by (cases "j = i") auto
    qed
    with n show ?thesis by (intro exI [of _ n]) auto
  next
    case (Some d)
    with step have "d = c" by simp
    with Some show ?thesis by (intro exI [of _ i]) auto
  qed
qed

text \<open>
  Claim C4, as the code has it. \<open>findConnection\<close> takes no context and has no result
  other than a connection: it returns exactly when the pool hands out a connection, with
  the first one handed out, and it does not return while every \<open>select\<close> ends with the
  timer.
\<close>

theorem findConnection_blocks:
  "(findConnection pool 0 = Some c \<longleftrightarrow> (\<exists>n. pool n = Some c \<and> (\<forall>i<n. pool i = None)))
   \<and> ((\<forall>i. pool i = None) \<longrightarrow> findConnection pool 0 = None)"
proof -
  have 1: "findConnection pool 0 = Some c \<longleftrightarrow> (\<exists>n. pool n = Some c \<and> (\<forall>i<n. pool i = None))"
  proof
    assume "findConnection pool 0 = Some c"
    from findConnection_returned [OF this]
    show "\<exists>n. pool n = Some c \<and> (\<forall>i<n. pool i = None)" by auto
  next
    assume "\<exists>n. pool n = Some c \<and> (\<forall>i<n. pool i = None)"
    then show "findConnection pool 0 = Some c" by (auto intro: findConnection_found)
  qed
  have 2: "(\<forall>i. pool i = None) \<longrightarrow> findConnection pool 0 = None"
  proof
    assume a: "\<forall>i. pool i = None"
    show "findConnection pool 0 = None"
    proof (cases "findConnection pool 0")
      case None
      then show ?thesis .
    next
      case (Some d)
      from findConnection_returned [OF this] a show ?thesis by auto
    qed
  qed
  from 1 2 show ?thesis by blast
qed

text \<open>
  Claim C4 as stated fails on a pool that never has a free connection: nothing that
  happens to a context reaches \<open>findConnection\<close>, and the call does not return.
\<close>

theorem findConnection_blocks_counterexample:
  "findConnection never_free 0 = None"
proof (cases "findConnection never_free 0")
  case None
  then show ?thesis .
next
  case (Some d)
  from findConnection_returned [OF this] show ?thesis by (auto simp: never_free_def)
qed

text \<open>
  Claim C4 on a pool that is empty for two seconds and then hands out a connection, and on
  a pool that stays empty.
\<close>

theorem findConnection_blocks_witness:
  "pool_after 2 conn0 2 = Some conn0
   \<and> pool_after 2 conn0 0 = None \<and> pool_after 2 conn0 1 = None
   \<and> findConnection (pool_after 2 conn0) 0 = Some conn0
   \<and> findConnection (\<lambda>i. None) 0 = None"
proof -
  have a: "pool_after 2 conn0 2 = Some conn0" "pool_after 2 conn0 0 = None"
    "pool_after 2 conn0 1 = None"
    by (simp_all add: pool_after_def)
  have "\<exists>n. pool_after 2 conn0 n = Some conn0 \<and> (\<forall>i<n. pool_after 2 conn0 i = None)"
    by (intro exI [of _ 2]) (simp add: pool_after_def)
  with findConnection_blocks [of "pool_after 2 conn0" conn0]
  have b: "findConnection (pool_after 2 conn0) 0 = Some conn0" by blast
  from findConnection_blocks [of "\<lambda>i. None" conn0]
  have c: "findConnection (\<lambda>i. None) 0 = None" by simp
  from a b c show ?thesis by blast
qed


subsection \<open>SendRequest\<close>

text \<open>
  Claim C3, as the code has it. When the first \<open>doRequest\<close> fails with an error, the
  trace of the call continues with one \<open>reconnect\<close> on the same connection. If the dial
  fails, \<open>SendRequest\<close> returns the error of \<open>reconnect\<close> wrapped as
  \<open>could not reconnect\<close> and nothing more is called. Otherwise \<open>doRequest\<close> runs
  once more on the same connection with its new socket, and nothing after it: its response
  is returned, and its error is returned wrapped as \<open>could not send the request\<close>.
\<close>

theorem SendRequest_retry:
  assumes "findConnection pool 0 = Some conn"
    and "doRequest P ro w conn r = (w1, Inl (Err err))"
  shows
    "calls w1 = calls w @ [DoRequest (id conn)]
   \<and> (net_Dial (socketPath conn) = Inl derr \<longrightarrow>
        SendRequest P ro net_Dial pool w r
          = Some (w1\<lparr>calls := calls w @ [DoRequest (id conn), Reconnect (id conn)]\<rparr>,
                  Inl (Err (Errorf ''could not reconnect''
                              (Some (Errorf ''could not reconnect'' (Some derr)))))))
   \<and> (net_Dial (socketPath conn) = Inr nc
        \<and> doRequest P ro (w1\<lparr>calls := calls w @ [DoRequest (id conn), Reconnect (id conn)]\<rparr>)
             (conn\<lparr>Conn := nc\<rparr>) r = (w3, Inl (Err err3)) \<longrightarrow>
        SendRequest P ro net_Dial pool w r
          = Some (w3, Inl (Err (Errorf ''could not send the request'' (Some err3))))
        \<and> calls w3 = calls w @ [DoRequest (id conn), Reconnect (id conn), DoRequest (id conn)])
   \<and> (net_Dial (socketPath conn) = Inr nc
        \<and> doRequest P ro (w1\<lparr>calls := calls w @ [DoRequest (id conn), Reconnect (id conn)]\<rparr>)
             (conn\<lparr>Conn := nc\<rparr>) r = (w3, Inr (response, conn3)) \<longrightarrow>
        SendRequest P ro net_Dial pool w r = Some (w3, Inr response)
        \<and> calls w3 = calls w @ [DoRequest (id conn), Reconnect (id conn), DoRequest (id conn)])"
proof -
  let ?w2 = "w1\<lparr>calls := calls w @ [DoRequest (id conn), Reconnect (id conn)]\<rparr>"
  have c1: "calls w1 = calls w @ [DoRequest (id conn)]"
    using doRequest_calls [of P ro w conn r] assms(2) by simp
  have rc_fail: "net_Dial (socketPath conn) = Inl derr \<Longrightarrow>
      reconnect net_Dial w1 conn
        = (?w2, conn\<lparr>Conn := (Conn conn)\<lparr>closed := True\<rparr>\<rparr>,
           Some (Errorf ''could not reconnect'' (Some derr)))"
    by (simp add: reconnect_def Let_def c1)
  have rc_ok: "net_Dial (socketPath conn) = Inr nc \<Longrightarrow>
      reconnect net_Dial w1 conn = (?w2, conn\<lparr>Conn := nc\<rparr>, None)"
    by (simp add: reconnect_def Let_def c1)
  have 2: "net_Dial (socketPath conn) = Inl derr \<longrightarrow>
        SendRequest P ro net_Dial pool w r
          = Some (?w2, Inl (Err (Errorf ''could not reconnect''
                              (Some (Errorf ''could not reconnect'' (Some derr))))))"
    using assms rc_fail by (simp add: SendRequest_def)
  have 3: "net_Dial (socketPath conn) = Inr nc
        \<and> doRequest P ro ?w2 (conn\<lparr>Conn := nc\<rparr>) r = (w3, Inl (Err err3)) \<longrightarrow>
        SendRequest P ro net_Dial pool w r
          = Some (w3, Inl (Err (Errorf ''could not send the request'' (Some err3))))
        \<and> calls w3 = calls w @ [DoRequest (id conn), Reconnect (id conn), DoRequest (id conn)]"
  proof (intro impI, elim conjE)
    assume d: "net_Dial (socketPath conn) = Inr nc"
      and s: "doRequest P ro ?w2 (conn\<lparr>Conn := nc\<rparr>) r = (w3, Inl (Err err3))"
    from assms rc_ok [OF d] s
    have "SendRequest P ro net_Dial pool w r
          = Some (w3, Inl (Err (Errorf ''could not send the request'' (Some err3))))"
      by (simp add: SendRequest_def)
    moreover from doRequest_calls [of P ro ?w2 "conn\<lparr>Conn := nc\<rparr>" r] s
    have "calls w3 = calls w @ [DoRequest (id conn), Reconnect (id conn), DoRequest (id conn)]"
      by simp
    ultimately show "SendRequest P ro net_Dial pool w r
          = Some (w3, Inl (Err (Errorf ''could not send the request'' (Some err3))))
        \<and> calls w3 = calls w @ [DoRequest (id conn), Reconnect (id conn), DoRequest (id conn)]"
      by simp
  qed
  have 4: "net_Dial (socketPath conn) = Inr nc
        \<and> doRequest P ro ?w2 (conn\<lparr>Conn := nc\<rparr>) r = (w3, Inr (response, conn3)) \<longrightarrow>
        SendRequest P ro net_Dial pool w r = Some (w3, Inr response)
        \<and> calls w3 = calls w @ [DoRequest (id conn), Reconnect (id conn), DoRequest (id conn)]"
  proof (intro impI, elim conjE)
    assume d: "net_Dial (socketPath conn) = Inr nc"
      and s: "doRequest P ro ?w2 (conn\<lparr>Conn := nc\<rparr>) r = (w3, Inr (response, conn3))"
    from assms rc_ok [OF d] s
    have "SendRequest P ro net_Dial pool w r = Some (w3, Inr response)"
      by (simp add: SendRequest_def)
    moreover from doRequest_calls [of P ro ?w2 "conn\<lparr>Conn := nc\<rparr>" r] s
    have "calls w3 = calls w @ [DoRequest (id conn), Reconnect (id conn), DoRequest (id conn)]"
      by simp
    ultimately show "SendRequest P ro net_Dial pool w r = Some (w3, Inr response)
        \<and> calls w3 = calls w @ [DoRequest (id conn), Reconnect (id conn), DoRequest (id conn)]"
      by simp
  qed
  from c1 2 3 4 show ?thesis by blast
qed

lemma doRequest_gone:
  "doRequest P ro w conn_gone r
     = (w\<lparr>calls := calls w @ [DoRequest 0]\<rparr>, Inl (Err header_write_error))"
  by (simp add: doRequest_def sendHeader_def writeRecord_def conn_Write_def conn_gone_def
        gone_def conn0_def wrapf_def header_write_error_def Let_def)

lemma conn_gone_redialed: "conn_gone\<lparr>Conn := gone\<rparr> = conn_gone"
  by (simp add: conn_gone_def)

lemma conn_gone_fields: "id conn_gone = 0" "socketPath conn_gone = ''/sock/php-fpm.sock''"
  by (simp_all add: conn_gone_def conn0_def)

text \<open>
  Claim C3 as stated fails on a connection whose writes fail before and after the
  reconnect: the second \<open>doRequest\<close> fails with \<open>header_write_error\<close> and
  \<open>SendRequest\<close> returns a different error, the one that wraps it.
\<close>

theorem SendRequest_retry_counterexample:
  "doRequest http_ReadResponse range1
       \<lparr>heap = heap1, calls = [DoRequest 0, Reconnect 0]\<rparr> conn_gone (req_body [])
     = (\<lparr>heap = heap1, calls = [DoRequest 0, Reconnect 0, DoRequest 0]\<rparr>,
        Inl (Err header_write_error))
   \<and> SendRequest http_ReadResponse range1 dial_gone (pool_of conn_gone) world1 (req_body [])
     = Some (\<lparr>heap = heap1, calls = [DoRequest 0, Reconnect 0, DoRequest 0]\<rparr>,
             Inl (Err (Errorf ''could not send the request'' (Some header_write_error))))
   \<and> Errorf ''could not send the request'' (Some header_write_error) \<noteq> header_write_error"
proof -
  have "SendRequest http_ReadResponse range1 dial_gone (pool_of conn_gone) world1 (req_body [])
     = Some (\<lparr>heap = heap1, calls = [DoRequest 0, Reconnect 0, DoRequest 0]\<rparr>,
             Inl (Err (Errorf ''could not send the request'' (Some header_write_error))))"
    by (simp add: SendRequest_def findConnection_pool_of doRequest_gone reconnect_def
          dial_gone_def conn_gone_fields conn_gone_redialed world1_def Let_def)
  moreover have "Errorf ''could not send the request'' (Some header_write_error)
      \<noteq> header_write_error"
    by (simp add: header_write_error_def)
  ultimately show ?thesis by (simp add: doRequest_gone)
qed


text \<open>
  A request whose first attempt fails and whose second attempt, on the socket that the
  reconnect has opened, is answered with \<open>stream_404\<close>.
\<close>

lemma readRecords_served:
  assumes "incoming n = stream_404" and "\<not> closed n"
  shows "readRecords 7 [] n
     = Inr (bytes (''Status: 404 Not Found'' @ CRLF @ CRLF), n\<lparr>incoming := []\<rparr>)"
  using assms by (simp add: stream_404_def readRecords.simps [of 7] eval_read eval_record)

lemma readResponse_served:
  assumes "incoming (Conn c) = stream_404" and "\<not> closed (Conn c)"
  shows "readResponse http_ReadResponse c (req_body [])
     = Inr (response_404, c\<lparr>Conn := (Conn c)\<lparr>incoming := []\<rparr>\<rparr>)"
proof -
  have "readRecords (requestId (req_body [])) [] (Conn c)
     = Inr (bytes (''Status: 404 Not Found'' @ CRLF @ CRLF), (Conn c)\<lparr>incoming := []\<rparr>)"
    using readRecords_served [OF assms] by simp
  from readResponse_parsed [of _ _ _ _ http_ReadResponse, OF this http_404]
  show ?thesis
    by (simp add: Let_def Header_Get_def first_field_def strconv_Atoi_def digit_of_def
          response_404_def)
qed

lemma req_body_fields: "Body (req_body b) = b" "Params (req_body b) = 0"
  by (simp_all add: req_body_def)

lemma doRequest_served:
  "\<exists>c3. doRequest http_ReadResponse range1 \<lparr>heap = heap1, calls = cs\<rparr>
           (conn_in stream_404) (req_body [])
     = (\<lparr>heap = heap1, calls = cs @ [DoRequest 0]\<rparr>, Inr (response_404, c3))"
  by (simp add: doRequest_def sendHeader_def sendParams_def sendBody_def Let_def
        heap1_def params1_def range1_def req_body_fields readResponse_served
        length_param_payload put32_high_bit param_payload_def eval_record)


lemma conn_gone_served: "conn_gone\<lparr>Conn := Conn (conn_in bs)\<rparr> = conn_in bs"
  by (simp add: conn_gone_def conn_in_def conn0_def)

text \<open>
  Claim C3 on a connection whose writes fail, with a dial that fails, a dial that gives a
  socket whose writes fail too, and a dial that gives a socket on which the server answers.
\<close>

theorem SendRequest_retry_witness:
  "findConnection (pool_of conn_gone) 0 = Some conn_gone
   \<and> doRequest http_ReadResponse range1 world1 conn_gone (req_body [])
       = (\<lparr>heap = heap1, calls = [DoRequest 0]\<rparr>, Inl (Err header_write_error))
   \<and> dial_fails (socketPath conn_gone) = Inl DialError
   \<and> SendRequest http_ReadResponse range1 dial_fails (pool_of conn_gone) world1 (req_body [])
       = Some (\<lparr>heap = heap1, calls = [DoRequest 0, Reconnect 0]\<rparr>,
               Inl (Err (Errorf ''could not reconnect''
                           (Some (Errorf ''could not reconnect'' (Some DialError))))))
   \<and> dial_gone (socketPath conn_gone) = Inr gone
   \<and> SendRequest http_ReadResponse range1 dial_gone (pool_of conn_gone) world1 (req_body [])
       = Some (\<lparr>heap = heap1, calls = [DoRequest 0, Reconnect 0, DoRequest 0]\<rparr>,
               Inl (Err (Errorf ''could not send the request'' (Some header_write_error))))
   \<and> dial_serving stream_404 (socketPath conn_gone) = Inr (Conn (conn_in stream_404))
   \<and> SendRequest http_ReadResponse range1 (dial_serving stream_404) (pool_of conn_gone) world1
         (req_body [])
       = Some (\<lparr>heap = heap1, calls = [DoRequest 0, Reconnect 0, DoRequest 0]\<rparr>,
               Inr response_404)"
proof -
  let ?w1 = "\<lparr>heap = heap1, calls = [DoRequest 0]\<rparr>"
  let ?w2 = "\<lparr>heap = heap1, calls = [DoRequest 0, Reconnect 0]\<rparr>"
  let ?w3 = "\<lparr>heap = heap1, calls = [DoRequest 0, Reconnect 0, DoRequest 0]\<rparr>"
  have fc: "findConnection (pool_of conn_gone) 0 = Some conn_gone"
    by (rule findConnection_pool_of)
  have d1: "doRequest http_ReadResponse range1 world1 conn_gone (req_body [])
       = (?w1, Inl (Err header_write_error))"
    by (simp add: doRequest_gone world1_def)
  have w2: "?w1\<lparr>calls := calls world1 @ [DoRequest (id conn_gone), Reconnect (id conn_gone)]\<rparr>
       = ?w2"
    by (simp add: world1_def conn_gone_fields)
  have d2: "doRequest http_ReadResponse range1 ?w2 conn_gone (req_body [])
       = (?w3, Inl (Err header_write_error))"
    by (simp add: doRequest_gone)
  from doRequest_served [of "[DoRequest 0, Reconnect 0]"] obtain c3 where
    d3: "doRequest http_ReadResponse range1 ?w2 (conn_in stream_404) (req_body [])
       = (?w3, Inr (response_404, c3))"
    by auto
  have f: "dial_fails (socketPath conn_gone) = Inl DialError"
    by (simp add: dial_fails_def)
  have g: "dial_gone (socketPath conn_gone) = Inr gone"
    by (simp add: dial_gone_def)
  have s: "dial_serving stream_404 (socketPath conn_gone) = Inr (Conn (conn_in stream_404))"
    by (simp add: dial_serving_def)
  from SendRequest_retry [where pool = "pool_of conn_gone" and conn = conn_gone
        and P = http_ReadResponse and ro = range1 and w = world1 and r = "req_body []"
        and ?w1.0 = ?w1 and err = header_write_error and net_Dial = dial_fails
        and derr = DialError and nc = gone and ?w3.0 = ?w3 and ?err3.0 = header_write_error
        and response = response_404 and ?conn3.0 = conn_gone, OF fc d1]
  have 1: "SendRequest http_ReadResponse range1 dial_fails (pool_of conn_gone) world1
        (req_body [])
       = Some (?w2, Inl (Err (Errorf ''could not reconnect''
                                (Some (Errorf ''could not reconnect'' (Some DialError))))))"
    by (simp add: w2 f)
  from SendRequest_retry [where pool = "pool_of conn_gone" and conn = conn_gone
        and P = http_ReadResponse and ro = range1 and w = world1 and r = "req_body []"
        and ?w1.0 = ?w1 and err = header_write_error and net_Dial = dial_gone
        and derr = DialError and nc = gone and ?w3.0 = ?w3 and ?err3.0 = header_write_error
        and response = response_404 and ?conn3.0 = conn_gone, OF fc d1]
  have 2: "SendRequest http_ReadResponse range1 dial_gone (pool_of conn_gone) world1
        (req_body [])
       = Some (?w3, Inl (Err (Errorf ''could not send the request''
                                (Some header_write_error))))"
    by (simp add: w2 g d2 conn_gone_redialed)
  from SendRequest_retry [where pool = "pool_of conn_gone" and conn = conn_gone
        and P = http_ReadResponse and ro = range1 and w = world1 and r = "req_body []"
        and ?w1.0 = ?w1 and err = header_write_error and net_Dial = "dial_serving stream_404"
        and derr = DialError and nc = "Conn (conn_in stream_404)" and ?w3.0 = ?w3
        and ?err3.0 = header_write_error and response = response_404 and ?conn3.0 = c3,
        OF fc d1]
  have 3: "SendRequest http_ReadResponse range1 (dial_serving stream_404) (pool_of conn_gone)
        world1 (req_body [])
       = Some (?w3, Inr response_404)"
    by (simp add: w2 s d3 conn_gone_served)
  from fc d1 f 1 g 2 s 3 show ?thesis by simp
qed

end
